theory Spec2Isabelle
  imports Main
begin

section \<open>The archive URL fetch handler (charmhelpers/fetch/archiveurl.py)\<close>

text \<open>
  A shallow embedding of \<^verbatim>\<open>charmhelpers/fetch/archiveurl.py\<close>: the two credential
  splitters \<^verbatim>\<open>splituser\<close> and \<^verbatim>\<open>splitpasswd\<close>, and the methods \<^verbatim>\<open>can_handle\<close>,
  \<^verbatim>\<open>download\<close> and \<^verbatim>\<open>install\<close> of \<^verbatim>\<open>ArchiveUrlFetchHandler\<close>.

  Exceptions are values of the type \<open>exn\<close> and a call that may raise returns \<open>exn + 'a\<close>
  (\<open>Inl\<close> the exception). The file system, the process-wide URL opener and the sequence of
  calls made to collaborators are an explicit state, the record \<open>world\<close>. Everything the
  module imports and does not define (the standard library's URL functions, the base
  class, the hash, directory and archive helpers) is a field of the record \<open>env\<close>, so that
  every theorem holds for whatever those functions compute.
\<close>

subsection \<open>Values\<close>

type_synonym filepath = string
type_synonym bytes = "char list"

text \<open>
  The exceptions the module raises or lets through. \<open>URLError\<close> carries its
  \<^verbatim>\<open>reason\<close>. \<open>OSError\<close> carries its \<^verbatim>\<open>strerror\<close>, which is \<^verbatim>\<open>None\<close> for an
  \<^verbatim>\<open>OSError\<close> built from a message alone (\<^verbatim>\<open>OSError('boom')\<close>,
  \<^verbatim>\<open>TimeoutError('timed out')\<close>, \<^verbatim>\<open>http.client.RemoteDisconnected\<close>), and the text
  \<^verbatim>\<open>str(e)\<close> gives. \<open>KeyboardInterrupt\<close> and \<open>SystemExit\<close> derive from
  \<^verbatim>\<open>BaseException\<close> only; the others derive from \<^verbatim>\<open>Exception\<close>, which is what
  \<open>is_Exception\<close> says.
\<close>

datatype exn =
    URLError string
  | OSError "string option" string
  | TypeError string
  | ChecksumError string
  | UnhandledSource "string option"
  | OtherException string
  | KeyboardInterrupt
  | SystemExit

fun is_Exception :: "exn \<Rightarrow> bool" where
  "is_Exception KeyboardInterrupt = False"
| "is_Exception SystemExit = False"
| "is_Exception e = True"

text \<open>The six components \<^verbatim>\<open>urlparse\<close> returns.\<close>

record url_parts =
  scheme :: string
  netloc :: string
  path :: string
  params :: string
  query :: string
  fragment :: string

text \<open>
  \<^verbatim>\<open>can_handle\<close> returns either a string or a boolean; \<open>truthy\<close> is Python's
  \<^verbatim>\<open>bool(...)\<close> on such a value.
\<close>

datatype pyval = PyStr string | PyBool bool

fun truthy :: "pyval \<Rightarrow> bool" where
  "truthy (PyStr s) = (s \<noteq> [])"
| "truthy (PyBool b) = b"

subsection \<open>The regular expressions of the credential splitters\<close>

text \<open>
  Both splitters call \<^verbatim>\<open>re.match\<close>, which anchors at the start of the string, with a
  pattern of the shape \<^verbatim>\<open>^(A*)c(B*)$\<close>. \<open>star p k acc s\<close> is the greedy, backtracking match
  of \<^verbatim>\<open>p*\<close> on \<open>s\<close>: it consumes as many characters satisfying \<open>p\<close> as it can and hands the
  group matched so far and the rest of the string to the continuation \<open>k\<close>; when the
  continuation fails it gives one character back and tries again.
\<close>

fun star :: "(char \<Rightarrow> bool) \<Rightarrow> (string \<Rightarrow> string \<Rightarrow> 'a option) \<Rightarrow> string \<Rightarrow> string \<Rightarrow> 'a option" where
  "star p k acc [] = k acc []"
| "star p k acc (c # cs) =
     (if p c
      then (case star p k (acc @ [c]) cs of
              Some r \<Rightarrow> Some r
            | None \<Rightarrow> k acc (c # cs))
      else k acc (c # cs))"

text \<open>
  Without \<^verbatim>\<open>re.S\<close> the dot matches every character but the line feed; with it, every
  character. Without \<^verbatim>\<open>re.M\<close>, \<^verbatim>\<open>$\<close> matches at the end of the string and just before
  a line feed that ends the string.
\<close>

definition dot :: "char \<Rightarrow> bool" where
  "dot c = (c \<noteq> CHR 0x0A)"

definition dot_all :: "char \<Rightarrow> bool" where
  "dot_all c = True"

definition at_end :: "string \<Rightarrow> bool" where
  "at_end s = (s = [] \<or> s = [CHR 0x0A])"

text \<open>\<open>lit c k\<close> matches the literal character \<open>c\<close> and continues with \<open>k\<close> on the rest.\<close>

fun lit :: "char \<Rightarrow> (string \<Rightarrow> 'a option) \<Rightarrow> string \<Rightarrow> 'a option" where
  "lit c k [] = None"
| "lit c k (d # ds) = (if d = c then k ds else None)"

text \<open>\<^verbatim>\<open>re.compile('^(.*)@(.*)$').match(host)\<close>: the two groups, or \<open>None\<close>.\<close>

definition userprog_match :: "string \<Rightarrow> (string \<times> string) option" where
  "userprog_match host =
     star dot (\<lambda>g1. lit CHR ''@''
       (star dot (\<lambda>g2 rest. if at_end rest then Some (g1, g2) else None) [])) [] host"

text \<open>\<^verbatim>\<open>re.compile('^([^:]*):(.*)$', re.S).match(user)\<close>: the two groups, or \<open>None\<close>.\<close>

definition passwdprog_match :: "string \<Rightarrow> (string \<times> string) option" where
  "passwdprog_match user =
     star (\<lambda>c. c \<noteq> CHR '':'') (\<lambda>g1. lit CHR '':''
       (star dot_all (\<lambda>g2 rest. if at_end rest then Some (g1, g2) else None) [])) [] user"

definition splituser :: "string \<Rightarrow> string option \<times> string" where
  "splituser host =
     (case userprog_match host of
        Some (g1, g2) \<Rightarrow> (Some g1, g2)
      | None \<Rightarrow> (None, host))"

definition splitpasswd :: "string \<Rightarrow> string \<times> string option" where
  "splitpasswd user =
     (case passwdprog_match user of
        Some (g1, g2) \<Rightarrow> (g1, Some g2)
      | None \<Rightarrow> (user, None))"

subsection \<open>The state: file system, installed opener and the calls made\<close>

text \<open>A regular file with its content, or a directory with its permission mode.\<close>

datatype node = File bytes | Dir nat

type_synonym filesystem = "filepath \<Rightarrow> node option"

text \<open>
  \<^verbatim>\<open>os.path.exists\<close> and \<^verbatim>\<open>os.path.isfile\<close> on that file system, and what
  \<^verbatim>\<open>os.unlink\<close> does to it when it succeeds.
\<close>

definition path_exists :: "filesystem \<Rightarrow> filepath \<Rightarrow> bool" where
  "path_exists f p = (f p \<noteq> None)"

definition isfile :: "filesystem \<Rightarrow> filepath \<Rightarrow> bool" where
  "isfile f p = (case f p of Some (File _) \<Rightarrow> True | _ \<Rightarrow> False)"

definition unlink :: "filesystem \<Rightarrow> filepath \<Rightarrow> filesystem" where
  "unlink f p = f(p := None)"

text \<open>
  The opener \<^verbatim>\<open>install_opener\<close> installs process-wide: the entry handed to
  \<^verbatim>\<open>passman.add_password(None, source, username, password)\<close>.
\<close>

type_synonym opener = "string \<times> string \<times> string option"

text \<open>
  The calls a run makes, in the order they are made: to the collaborators, and of
  \<^verbatim>\<open>install\<close> to the handler's own \<^verbatim>\<open>download\<close>.
\<close>

datatype call =
    Mkdir filepath nat
  | Download string filepath
  | InstallOpener string string "string option"
  | Urlopen string
  | Unlink filepath
  | CheckHash filepath string string
  | Extract filepath "filepath option"

record world =
  fs :: filesystem
  opener :: "opener option"
  calls :: "call list"

fun is_Mkdir :: "call \<Rightarrow> bool" where
  "is_Mkdir (Mkdir d m) = True"
| "is_Mkdir c = False"

fun is_CheckHash :: "call \<Rightarrow> bool" where
  "is_CheckHash (CheckHash f x a) = True"
| "is_CheckHash c = False"

fun is_Extract :: "call \<Rightarrow> bool" where
  "is_Extract (Extract f d) = True"
| "is_Extract c = False"

definition log :: "call \<Rightarrow> world \<Rightarrow> world" where
  "log c w = w\<lparr>calls := calls w @ [c]\<rparr>"

text \<open>The calls a run made: those of the final state past the ones of the initial state.\<close>

definition new_calls :: "world \<Rightarrow> world \<Rightarrow> call list" where
  "new_calls w w' = drop (length (calls w)) (calls w')"

text \<open>What \<^verbatim>\<open>urlopen\<close> returns: a response whose \<^verbatim>\<open>read()\<close> gives the body or raises.\<close>

datatype response = Response (body: "exn + bytes")

subsection \<open>The collaborators\<close>

text \<open>
  The functions the module imports: \<^verbatim>\<open>parse_url\<close> and \<^verbatim>\<open>base_url\<close> of
  \<^verbatim>\<open>BaseFetchHandler\<close>, \<^verbatim>\<open>get_archive_handler\<close> and \<^verbatim>\<open>extract\<close> (the field \<open>extract_archive\<close>) of
  \<^verbatim>\<open>charmhelpers.payload.archive\<close>, \<^verbatim>\<open>mkdir\<close> and \<^verbatim>\<open>check_hash\<close> of
  \<^verbatim>\<open>charmhelpers.core.host\<close>, and the standard library's \<^verbatim>\<open>urlparse\<close>,
  \<^verbatim>\<open>urlunparse\<close>, \<^verbatim>\<open>parse_qs\<close>, \<^verbatim>\<open>urlopen\<close>, \<^verbatim>\<open>hashlib.algorithms_available\<close> and
  \<^verbatim>\<open>os.environ.get('CHARM_DIR')\<close>. \<^verbatim>\<open>parse_qs\<close> returns a dictionary, iterated in
  insertion order: an association list. \<open>open_fault\<close>, \<open>write_fault\<close>, \<open>unlink_fault\<close> and
  \<open>mkdir_fault\<close> are the faults of the operating system: the exception
  \<^verbatim>\<open>open(dest, 'wb')\<close> raises, if any; the exception raised while writing, with the
  number of bytes that reached the file before; the exception \<^verbatim>\<open>os.unlink\<close> raises, if
  any; and the exception raised while the directory is made, if any.
\<close>

record env =
  parse_url :: "string \<Rightarrow> url_parts"
  base_url :: "string \<Rightarrow> string"
  get_archive_handler :: "string \<Rightarrow> string option"
  urlparse :: "string \<Rightarrow> url_parts"
  urlunparse :: "url_parts \<Rightarrow> string"
  parse_qs :: "string \<Rightarrow> (string \<times> string list) list"
  algorithms_available :: "string list"
  environ_CHARM_DIR :: "string option"
  mkdir_fault :: "filesystem \<Rightarrow> filepath \<Rightarrow> exn option"
  urlopen :: "opener option \<Rightarrow> string \<Rightarrow> exn + response"
  open_fault :: "filesystem \<Rightarrow> filepath \<Rightarrow> exn option"
  write_fault :: "filepath \<Rightarrow> bytes \<Rightarrow> (nat \<times> exn) option"
  unlink_fault :: "filesystem \<Rightarrow> filepath \<Rightarrow> exn option"
  check_hash :: "filesystem \<Rightarrow> filepath \<Rightarrow> string \<Rightarrow> string \<Rightarrow> exn option"
  extract_archive :: "filesystem \<Rightarrow> filepath \<Rightarrow> filepath option \<Rightarrow> exn + filepath"

text \<open>
  Modelled from the spec: \<^verbatim>\<open>mkdir\<close> of \<^verbatim>\<open>charmhelpers.core.host\<close> is not under the
  sources. The spec's directory utility "creates a directory with a specified permission
  mode if absent; idempotent if already present". It raises the operating system's fault
  when there is one.
\<close>

definition mkdir :: "env \<Rightarrow> filesystem \<Rightarrow> filepath \<Rightarrow> nat \<Rightarrow> exn + filesystem" where
  "mkdir env f d perms =
     (case mkdir_fault env f d of
        Some e \<Rightarrow> Inl e
      | None \<Rightarrow> Inr (if path_exists f d then f else f(d \<mapsto> Dir perms)))"

subsection \<open>Path and string helpers of the standard library\<close>

text \<open>\<^verbatim>\<open>posixpath.join(a, b)\<close> and \<^verbatim>\<open>posixpath.basename(p)\<close>.\<close>

definition path_join :: "filepath \<Rightarrow> filepath \<Rightarrow> filepath" where
  "path_join a b =
     (if b \<noteq> [] \<and> hd b = CHR ''/'' then b
      else if a = [] \<or> last a = CHR ''/'' then a @ b
      else a @ ''/'' @ b)"

definition basename :: "filepath \<Rightarrow> filepath" where
  "basename p = rev (takeWhile (\<lambda>c. c \<noteq> CHR ''/'') (rev p))"

text \<open>The decimal digits of a number, as \<^verbatim>\<open>"%d" % n\<close> prints them.\<close>

fun string_of_nat :: "nat \<Rightarrow> string" where
  "string_of_nat n =
     (if n < 10 then [char_of (48 + n)]
      else string_of_nat (n div 10) @ [char_of (48 + n mod 10)])"

declare string_of_nat.simps [simp del]

subsection \<open>\<^verbatim>\<open>can_handle\<close>\<close>

definition can_handle :: "env \<Rightarrow> string \<Rightarrow> pyval" where
  "can_handle env source =
     (let parts = parse_url env source in
      if scheme parts \<notin> set [''http'', ''https'', ''ftp'', ''file'']
      then PyStr ''Wrong source type''
      else if get_archive_handler env (base_url env source) \<noteq> None
      then PyBool True
      else PyBool False)"

subsection \<open>\<^verbatim>\<open>download\<close>\<close>

text \<open>
  Lines 82 to 94: for an http or https URL whose network location holds userinfo, the
  source is rebuilt without it and a basic-auth opener is installed for it. The result is
  the state and the URL to open.
\<close>

definition authenticate :: "env \<Rightarrow> world \<Rightarrow> string \<Rightarrow> world \<times> string" where
  "authenticate env w source =
     (let parts = urlparse env source in
      if scheme parts \<in> set [''http'', ''https'']
      then (case splituser (netloc parts) of
              (None, barehost) \<Rightarrow> (w, source)
            | (Some auth, barehost) \<Rightarrow>
                (let source' = urlunparse env (parts\<lparr>netloc := barehost\<rparr>);
                     (username, password) = splitpasswd auth
                 in (log (InstallOpener source' username password)
                       (w\<lparr>opener := Some (source', username, password)\<rparr>),
                     source')))
      else (w, source))"

text \<open>
  Lines 97 and 98, the body of the \<^verbatim>\<open>try\<close>: \<^verbatim>\<open>open(dest, 'wb')\<close> fails on a directory
  or with the operating system's fault, and truncates or creates the file otherwise; then
  the response is read; then the data are written, all of them or a prefix followed by the
  fault.
\<close>

definition write_body :: "env \<Rightarrow> filesystem \<Rightarrow> response \<Rightarrow> filepath \<Rightarrow> filesystem \<times> (exn + unit)" where
  "write_body env f resp dest =
     (case f dest of
        Some (Dir m) \<Rightarrow> (f, Inl (OSError (Some ''Is a directory'') ''[Errno 21] Is a directory''))
      | _ \<Rightarrow>
        (case open_fault env f dest of
           Some e \<Rightarrow> (f, Inl e)
         | None \<Rightarrow>
           (let f1 = f(dest \<mapsto> File []) in
            case body resp of
              Inl e \<Rightarrow> (f1, Inl e)
            | Inr data \<Rightarrow>
              (case write_fault env dest data of
                 Some (n, e) \<Rightarrow> (f1(dest \<mapsto> File (take n data)), Inl e)
               | None \<Rightarrow> (f1(dest \<mapsto> File data), Inr ())))))"

text \<open>
  Lines 100 to 102, the body of the handler: when there is a file at \<open>dest\<close>,
  \<^verbatim>\<open>os.unlink\<close> is called on it; when that call raises, its exception is the one that
  propagates and the file stays; otherwise the exception \<open>e\<close> that was caught is raised
  again.
\<close>

definition cleanup :: "env \<Rightarrow> world \<Rightarrow> filepath \<Rightarrow> exn \<Rightarrow> world \<times> (exn + unit)" where
  "cleanup env w dest e =
     (if isfile (fs w) dest
      then (case unlink_fault env (fs w) dest of
              Some e' \<Rightarrow> (log (Unlink dest) w, Inl e')
            | None \<Rightarrow> (log (Unlink dest) (w\<lparr>fs := unlink (fs w) dest\<rparr>), Inl e))
      else (w, Inl e))"

text \<open>
  Lines 95 to 102. The handler is \<^verbatim>\<open>except Exception\<close>: an exception of the body that
  does not derive from \<^verbatim>\<open>Exception\<close> propagates with no cleanup.
\<close>

definition download :: "env \<Rightarrow> world \<Rightarrow> string \<Rightarrow> filepath \<Rightarrow> world \<times> (exn + unit)" where
  "download env w source dest =
     (let (w1, source1) = authenticate env w source;
          w2 = log (Urlopen source1) w1
      in case urlopen env (opener w1) source1 of
           Inl e \<Rightarrow> (w2, Inl e)
         | Inr resp \<Rightarrow>
           (case write_body env (fs w2) resp dest of
              (f, Inr u) \<Rightarrow> (w2\<lparr>fs := f\<rparr>, Inr u)
            | (f, Inl e) \<Rightarrow>
                if is_Exception e then cleanup env (w2\<lparr>fs := f\<rparr>) dest e
                else (w2\<lparr>fs := f\<rparr>, Inl e)))"

subsection \<open>\<^verbatim>\<open>install\<close>\<close>

text \<open>
  Lines 140 to 147, the loop over the parsed fragment: for every key that names an
  available hash algorithm, exactly one value is required and checked against the
  downloaded file. The result is the checks made and the first exception, if any.
\<close>

fun check_options :: "env \<Rightarrow> filesystem \<Rightarrow> filepath \<Rightarrow> (string \<times> string list) list \<Rightarrow> call list \<times> (exn + unit)" where
  "check_options env f file [] = ([], Inr ())"
| "check_options env f file ((key, vals) # rest) =
     (if key \<in> set (algorithms_available env)
      then (case vals of
              [expected] \<Rightarrow>
                (case check_hash env f file expected key of
                   Some e \<Rightarrow> ([CheckHash file expected key], Inl e)
                 | None \<Rightarrow>
                   (let (cs, r) = check_options env f file rest
                    in (CheckHash file expected key # cs, r)))
            | _ \<Rightarrow> ([], Inl (TypeError (''Expected 1 hash value, not '' @ string_of_nat (length vals)))))
      else check_options env f file rest)"

text \<open>Lines 129 and 132: the directory of fetched archives and the download path.\<close>

definition dest_dir :: "string \<Rightarrow> filepath" where
  "dest_dir root = path_join root ''fetched''"

definition dld_file :: "env \<Rightarrow> string \<Rightarrow> string \<Rightarrow> filepath" where
  "dld_file env root source = path_join (dest_dir root) (basename (path (parse_url env source)))"

text \<open>
  Lines 130 and 131: the directory is made, with mode \<^verbatim>\<open>0o755\<close> (octal), when it
  does not exist.
\<close>

definition perms_0o755 :: nat where
  "perms_0o755 = 7 * 8 * 8 + 5 * 8 + 5"

definition ensure_dest_dir :: "env \<Rightarrow> world \<Rightarrow> filepath \<Rightarrow> world \<times> (exn + unit)" where
  "ensure_dest_dir env w d =
     (if \<not> path_exists (fs w) d
      then (case mkdir env (fs w) d perms_0o755 of
              Inl e \<Rightarrow> (log (Mkdir d perms_0o755) w, Inl e)
            | Inr f \<Rightarrow> (log (Mkdir d perms_0o755) (w\<lparr>fs := f\<rparr>), Inr ()))
      else (w, Inr ()))"

text \<open>Lines 135 to 138: the two \<^verbatim>\<open>except\<close> clauses around the download.\<close>

fun reraise :: "exn \<Rightarrow> exn" where
  "reraise (URLError reason) = UnhandledSource (Some reason)"
| "reraise (OSError strerror msg) = UnhandledSource strerror"
| "reraise e = e"

text \<open>
  Lines 128 to 138: up to the end of the download. \<^verbatim>\<open>os.path.join\<close> raises
  \<^verbatim>\<open>TypeError\<close> when \<^verbatim>\<open>CHARM_DIR\<close> is not in the environment. The result is the
  download path.
\<close>

definition fetch :: "env \<Rightarrow> world \<Rightarrow> string \<Rightarrow> world \<times> (exn + filepath)" where
  "fetch env w source =
     (case environ_CHARM_DIR env of
        None \<Rightarrow> (w, Inl (TypeError ''expected str, bytes or os.PathLike object, not NoneType''))
      | Some root \<Rightarrow>
        (case ensure_dest_dir env w (dest_dir root) of
           (w1, Inl e) \<Rightarrow> (w1, Inl e)
         | (w1, Inr u) \<Rightarrow>
           (case download env (log (Download source (dld_file env root source)) w1)
                   source (dld_file env root source) of
              (w2, Inl e) \<Rightarrow> (w2, Inl (reraise e))
            | (w2, Inr u) \<Rightarrow> (w2, Inr (dld_file env root source)))))"

text \<open>
  Lines 148 and 149: the explicit checksum is checked when it is given and not empty
  (\<^verbatim>\<open>if checksum:\<close>). The result is the check made, if any, and its outcome.
\<close>

definition check_explicit ::
  "env \<Rightarrow> filesystem \<Rightarrow> filepath \<Rightarrow> string option \<Rightarrow> string \<Rightarrow> call list \<times> (exn + unit)" where
  "check_explicit env f file checksum hash_type =
     (case checksum of
        None \<Rightarrow> ([], Inr ())
      | Some c \<Rightarrow>
          if c \<noteq> []
          then ([CheckHash file c hash_type],
                case check_hash env f file c hash_type of Some e \<Rightarrow> Inl e | None \<Rightarrow> Inr ())
          else ([], Inr ()))"

definition add_calls :: "call list \<Rightarrow> world \<Rightarrow> world" where
  "add_calls cs w = w\<lparr>calls := calls w @ cs\<rparr>"

text \<open>
  Lines 139 to 150: the checks of the fragment, the check of the explicit checksum, and
  the extraction.
\<close>

definition verify_and_extract ::
  "env \<Rightarrow> world \<Rightarrow> string \<Rightarrow> filepath \<Rightarrow> filepath option \<Rightarrow> string option \<Rightarrow> string \<Rightarrow> world \<times> (exn + filepath)" where
  "verify_and_extract env w source file dest checksum hash_type =
     (case check_options env (fs w) file (parse_qs env (fragment (parse_url env source))) of
        (cs, Inl e) \<Rightarrow> (add_calls cs w, Inl e)
      | (cs, Inr u) \<Rightarrow>
        (case check_explicit env (fs w) file checksum hash_type of
           (cs2, Inl e) \<Rightarrow> (add_calls (cs @ cs2) w, Inl e)
         | (cs2, Inr u) \<Rightarrow>
             (add_calls (cs @ cs2 @ [Extract file dest]) w, extract_archive env (fs w) file dest)))"

definition install ::
  "env \<Rightarrow> world \<Rightarrow> string \<Rightarrow> filepath option \<Rightarrow> string option \<Rightarrow> string \<Rightarrow> world \<times> (exn + filepath)" where
  "install env w source dest checksum hash_type =
     (case fetch env w source of
        (w1, Inl e) \<Rightarrow> (w1, Inl e)
      | (w1, Inr file) \<Rightarrow> verify_and_extract env w1 source file dest checksum hash_type)"

subsection \<open>A concrete environment\<close>

text \<open>
  An environment to run the handler in: the URL functions are tables holding what the
  standard library returns on the URLs used below, the server answers every request with
  an empty body, no operating-system fault occurs, and \<open>check_hash\<close> knows the MD5 and
  SHA-1 digests of the empty file.
\<close>

definition no_parts :: url_parts where
  "no_parts = \<lparr>scheme = [], netloc = [], path = [], params = [], query = [], fragment = []\<rparr>"

definition ex_urlparse :: "string \<Rightarrow> url_parts" where
  "ex_urlparse s =
     (if s = ''foo://'' then no_parts\<lparr>scheme := ''foo''\<rparr>
      else if s = ''http://example.com/file.tgz''
      then no_parts\<lparr>scheme := ''http'', netloc := ''example.com'', path := ''/file.tgz''\<rparr>
      else if s = ''http://example.com/file.tgz#sha1=a&sha1=b''
      then no_parts\<lparr>scheme := ''http'', netloc := ''example.com'', path := ''/file.tgz'',
             fragment := ''sha1=a&sha1=b''\<rparr>
      else if s = ''http://example.com/file.tgz#md5=x&sha1=a&sha1=b''
      then no_parts\<lparr>scheme := ''http'', netloc := ''example.com'', path := ''/file.tgz'',
             fragment := ''md5=x&sha1=a&sha1=b''\<rparr>
      else if s = ''http://example.com/file.tgz#md5=d41d8cd98f00b204e9800998ecf8427e&sha1=a&sha1=b''
      then no_parts\<lparr>scheme := ''http'', netloc := ''example.com'', path := ''/file.tgz'',
             fragment := ''md5=d41d8cd98f00b204e9800998ecf8427e&sha1=a&sha1=b''\<rparr>
      else if s = ''http://example.com/file.tgz#sha1=da39a3ee5e6b4b0d3255bfef95601890afd80709''
      then no_parts\<lparr>scheme := ''http'', netloc := ''example.com'', path := ''/file.tgz'',
             fragment := ''sha1=da39a3ee5e6b4b0d3255bfef95601890afd80709''\<rparr>
      else if s = ''ftp://user:pw@example.com/file.tgz''
      then no_parts\<lparr>scheme := ''ftp'', netloc := ''user:pw@example.com'', path := ''/file.tgz''\<rparr>
      else no_parts)"

definition ex_urlunparse :: "url_parts \<Rightarrow> string" where
  "ex_urlunparse p =
     scheme p @ ''://'' @ netloc p @ path p @ (if fragment p = [] then [] else ''#'' @ fragment p)"

definition ex_parse_qs :: "string \<Rightarrow> (string \<times> string list) list" where
  "ex_parse_qs s =
     (if s = ''sha1=a&sha1=b'' then [(''sha1'', [''a'', ''b''])]
      else if s = ''md5=x&sha1=a&sha1=b'' then [(''md5'', [''x'']), (''sha1'', [''a'', ''b''])]
      else if s = ''md5=d41d8cd98f00b204e9800998ecf8427e&sha1=a&sha1=b''
      then [(''md5'', [''d41d8cd98f00b204e9800998ecf8427e'']), (''sha1'', [''a'', ''b''])]
      else if s = ''sha1=da39a3ee5e6b4b0d3255bfef95601890afd80709''
      then [(''sha1'', [''da39a3ee5e6b4b0d3255bfef95601890afd80709''])]
      else [])"

definition ex_digest :: "string \<Rightarrow> bytes \<Rightarrow> string option" where
  "ex_digest alg content =
     (if content = [] \<and> alg = ''md5'' then Some ''d41d8cd98f00b204e9800998ecf8427e''
      else if content = [] \<and> alg = ''sha1'' then Some ''da39a3ee5e6b4b0d3255bfef95601890afd80709''
      else None)"

definition ex_check_hash :: "filesystem \<Rightarrow> filepath \<Rightarrow> string \<Rightarrow> string \<Rightarrow> exn option" where
  "ex_check_hash f p expected alg =
     (case f p of
        Some (File content) \<Rightarrow>
          (case ex_digest alg content of
             Some d \<Rightarrow> if d = expected then None else Some (ChecksumError (expected @ '' != '' @ d))
           | None \<Rightarrow> Some (OtherException ''digest not in the table''))
      | _ \<Rightarrow> Some (ChecksumError (expected @ '' != None'')))"

definition ex_env :: env where
  "ex_env = \<lparr>
     parse_url = ex_urlparse,
     base_url = takeWhile (\<lambda>c. c \<noteq> CHR ''?'' \<and> c \<noteq> CHR ''#''),
     get_archive_handler = (\<lambda>u. if drop (length u - 4) u = ''.tgz'' then Some ''extract_tarfile'' else None),
     urlparse = ex_urlparse,
     urlunparse = ex_urlunparse,
     parse_qs = ex_parse_qs,
     algorithms_available = [''md5'', ''sha1'', ''sha256'', ''sha512''],
     environ_CHARM_DIR = Some ''/srv/charm'',
     mkdir_fault = (\<lambda>f d. None),
     urlopen = (\<lambda>op u. Inr (Response (Inr []))),
     open_fault = (\<lambda>f p. None),
     write_fault = (\<lambda>p d. None),
     unlink_fault = (\<lambda>f p. None),
     check_hash = ex_check_hash,
     extract_archive = (\<lambda>f p d. Inr (case d of Some d' \<Rightarrow> d' | None \<Rightarrow> ''/srv/charm/archives/file''))
   \<rparr>"

text \<open>The initial state: the charm directory exists, nothing else does.\<close>

definition ex_world :: world where
  "ex_world = \<lparr>fs = [''/srv/charm'' \<mapsto> Dir 493], opener = None, calls = []\<rparr>"

section \<open>The credential splitters\<close>

subsection \<open>The greedy match\<close>

text \<open>
  When the continuation fails at every split of the string, so does the match; when it
  fails at every split but the first, the match is the continuation's answer there; and
  a string of characters in the class is consumed whole when the continuation accepts
  what follows.
\<close>

lemma star_none:
  "(\<And>i. i \<le> length s \<Longrightarrow> k (acc @ take i s) (drop i s) = None) \<Longrightarrow> star p k acc s = None"
proof (induction s arbitrary: acc)
  case Nil
  from Nil [of 0] show ?case by simp
next
  case (Cons c cs)
  have tail: "star p k (acc @ [c]) cs = None"
  proof (rule Cons.IH)
    fix i assume "i \<le> length cs"
    then show "k ((acc @ [c]) @ take i cs) (drop i cs) = None"
      using Cons.prems [of "Suc i"] by simp
  qed
  have here: "k acc (c # cs) = None"
    using Cons.prems [of 0] by simp
  show ?case by (simp add: tail here)
qed

lemma star_skip:
  assumes "\<And>i. 0 < i \<Longrightarrow> i \<le> length s \<Longrightarrow> k (acc @ take i s) (drop i s) = None"
  shows "star p k acc s = k acc s"
proof (cases s)
  case Nil
  then show ?thesis by simp
next
  case (Cons c cs)
  have "star p k (acc @ [c]) cs = None"
  proof (rule star_none)
    fix i assume "i \<le> length cs"
    then show "k ((acc @ [c]) @ take i cs) (drop i cs) = None"
      using assms [of "Suc i"] Cons by simp
  qed
  then show ?thesis using Cons by simp
qed

lemma star_greedy:
  "\<forall>c\<in>set xs. p c \<Longrightarrow> star p k (acc @ xs) ys = Some r \<Longrightarrow> star p k acc (xs @ ys) = Some r"
proof (induction xs arbitrary: acc)
  case Nil
  then show ?case by simp
next
  case (Cons x xs)
  from Cons.prems have "star p k ((acc @ [x]) @ xs) ys = Some r" by simp
  with Cons.IH [of "acc @ [x]"] Cons.prems(1) have "star p k (acc @ [x]) (xs @ ys) = Some r"
    by simp
  with Cons.prems(1) show ?case by simp
qed

lemma lit_none: "s = [] \<or> hd s \<noteq> c \<Longrightarrow> lit c k s = None"
  by (cases s) auto

lemma lit_drop_none: "c \<notin> set s \<Longrightarrow> lit c k (drop i s) = None"
proof (rule lit_none)
  assume a: "c \<notin> set s"
  show "drop i s = [] \<or> hd (drop i s) \<noteq> c"
  proof (cases "i < length s")
    case True
    then have "hd (drop i s) = s ! i" by (simp add: hd_drop_conv_nth)
    with True a show ?thesis by (metis nth_mem)
  next
    case False
    then show ?thesis by simp
  qed
qed

lemma userprog_match_none: "CHR ''@'' \<notin> set host \<Longrightarrow> userprog_match host = None"
  unfolding userprog_match_def by (rule star_none) (simp add: lit_drop_none)

lemma userprog_match_last:
  assumes nl: "CHR 0x0A \<notin> set (u @ CHR ''@'' # h)" and at: "CHR ''@'' \<notin> set h"
  shows "userprog_match (u @ CHR ''@'' # h) = Some (u, h)"
proof -
  let ?k2 = "\<lambda>g1 g2 rest. if at_end rest then Some (g1, g2) else None"
  let ?k = "\<lambda>g1. lit CHR ''@'' (star dot (?k2 g1) [])"
  have du: "\<forall>c\<in>set u. dot c" and dh: "\<forall>c\<in>set h. dot c"
    using nl by (auto simp: dot_def)
  have inner: "star dot (?k2 u) [] h = Some (u, h)"
    using star_greedy [of h dot "?k2 u" "[]" "[]" "(u, h)"] dh by (simp add: at_end_def)
  have later: "?k (u @ take i (CHR ''@'' # h)) (drop i (CHR ''@'' # h)) = None" if "0 < i" for i
  proof -
    from that obtain j where "i = Suc j" by (cases i) auto
    then show ?thesis using at by (simp add: lit_drop_none)
  qed
  have "star dot ?k u (CHR ''@'' # h) = ?k u (CHR ''@'' # h)"
    by (rule star_skip) (rule later)
  also have "\<dots> = Some (u, h)" using inner by simp
  finally have "star dot ?k ([] @ u) (CHR ''@'' # h) = Some (u, h)" by simp
  with du have "star dot ?k [] (u @ CHR ''@'' # h) = Some (u, h)" by (rule star_greedy)
  then show ?thesis by (simp add: userprog_match_def)
qed

lemma passwdprog_match_none: "CHR '':'' \<notin> set user \<Longrightarrow> passwdprog_match user = None"
  unfolding passwdprog_match_def by (rule star_none) (simp add: lit_drop_none)

lemma passwdprog_match_first:
  assumes "CHR '':'' \<notin> set u"
  shows "passwdprog_match (u @ CHR '':'' # p) = Some (u, p)"
proof -
  let ?k2 = "\<lambda>g1 g2 rest. if at_end rest then Some (g1, g2) else None"
  let ?k = "\<lambda>g1. lit CHR '':'' (star dot_all (?k2 g1) [])"
  have inner: "star dot_all (?k2 u) [] p = Some (u, p)"
    using star_greedy [of p dot_all "?k2 u" "[]" "[]" "(u, p)"] by (simp add: at_end_def dot_all_def)
  have "star (\<lambda>c. c \<noteq> CHR '':'') ?k ([] @ u) (CHR '':'' # p) = Some (u, p)"
    using inner by simp
  moreover have "\<forall>c\<in>set u. c \<noteq> CHR '':''" using assms by auto
  ultimately have "star (\<lambda>c. c \<noteq> CHR '':'') ?k [] (u @ CHR '':'' # p) = Some (u, p)"
    by (rule star_greedy [rotated])
  then show ?thesis by (simp add: passwdprog_match_def)
qed

subsection \<open>What the splitters return\<close>

lemma splituser_no_at: "CHR ''@'' \<notin> set host \<Longrightarrow> splituser host = (None, host)"
  by (simp add: splituser_def userprog_match_none)

lemma splituser_last_at:
  "CHR 0x0A \<notin> set (u @ CHR ''@'' # h) \<Longrightarrow> CHR ''@'' \<notin> set h \<Longrightarrow>
   splituser (u @ CHR ''@'' # h) = (Some u, h)"
  by (simp add: splituser_def userprog_match_last)

lemma splitpasswd_no_colon: "CHR '':'' \<notin> set user \<Longrightarrow> splitpasswd user = (user, None)"
  by (simp add: splitpasswd_def passwdprog_match_none)

lemma splitpasswd_first_colon:
  "CHR '':'' \<notin> set u \<Longrightarrow> splitpasswd (u @ CHR '':'' # p) = (u, Some p)"
  by (simp add: splitpasswd_def passwdprog_match_first)

lemma split_user_pass_host:
  "splituser ''user:pass@host'' = (Some ''user:pass'', ''host'') \<and>
   splitpasswd ''user:pass'' = (''user'', Some ''pass'') \<and>
   splituser ''host'' = (None, ''host'')"
  by (simp add: splituser_def userprog_match_def splitpasswd_def passwdprog_match_def
      dot_def dot_all_def at_end_def)

text \<open>
  The pattern of \<open>splituser\<close> is compiled without \<^verbatim>\<open>re.S\<close>, unlike that of
  \<open>splitpasswd\<close>: its dot stops at a line feed, so on a string with a line feed before the
  \<open>@\<close> nothing matches, and a line feed that ends the string is dropped from the host.
\<close>

lemma splituser_line_feed:
  "splituser (''user:pa'' @ [CHR 0x0A] @ ''ss@host'') = (None, ''user:pa'' @ [CHR 0x0A] @ ''ss@host'') \<and>
   splitpasswd (''user:pa'' @ [CHR 0x0A] @ ''ss'') = (''user'', Some (''pa'' @ [CHR 0x0A] @ ''ss'')) \<and>
   splituser (''user@host'' @ [CHR 0x0A]) = (Some ''user'', ''host'')"
  by (simp add: splituser_def userprog_match_def splitpasswd_def passwdprog_match_def
      dot_def dot_all_def at_end_def)

text \<open>
  Claim C4: for every network-location string, \<open>splituser\<close> returns what stands before
  the last \<open>@\<close> as userinfo and what stands after it as host, and no userinfo and the
  input unchanged when there is no \<open>@\<close>; \<open>splitpasswd\<close> returns what stands before the
  first colon of the userinfo as user name and what stands after it as password, and the
  whole userinfo and no password when there is no colon.

  A network location holds no line feed: \<open>download\<close> passes \<open>splituser\<close> the network
  location that \<^verbatim>\<open>urlparse\<close> returns, and \<^verbatim>\<open>urlparse\<close> removes the line feeds of a URL
  before it splits it. The userinfo handed to \<open>splitpasswd\<close> is any string.
\<close>

theorem splituser_splitpasswd_split:
  assumes "CHR 0x0A \<notin> set host"
  shows "(CHR ''@'' \<notin> set host \<longrightarrow> splituser host = (None, host)) \<and>
         (host = u @ CHR ''@'' # h \<and> CHR ''@'' \<notin> set h \<longrightarrow> splituser host = (Some u, h)) \<and>
         (CHR ''@'' \<in> set host \<longrightarrow>
            (\<exists>u' h'. host = u' @ CHR ''@'' # h' \<and> CHR ''@'' \<notin> set h' \<and> splituser host = (Some u', h'))) \<and>
         (CHR '':'' \<notin> set user \<longrightarrow> splitpasswd user = (user, None)) \<and>
         (user = n @ CHR '':'' # p \<and> CHR '':'' \<notin> set n \<longrightarrow> splitpasswd user = (n, Some p)) \<and>
         (CHR '':'' \<in> set user \<longrightarrow>
            (\<exists>n' p'. user = n' @ CHR '':'' # p' \<and> CHR '':'' \<notin> set n' \<and> splitpasswd user = (n', Some p')))"
proof -
  have a: "splituser host = (Some u', h')" if "host = u' @ CHR ''@'' # h'" "CHR ''@'' \<notin> set h'" for u' h'
    using splituser_last_at [of u' h'] assms that by simp
  have b: "\<exists>u' h'. host = u' @ CHR ''@'' # h' \<and> CHR ''@'' \<notin> set h' \<and> splituser host = (Some u', h')"
    if "CHR ''@'' \<in> set host"
  proof -
    from split_list_last [OF that] obtain u' h' where
      "host = u' @ CHR ''@'' # h'" "CHR ''@'' \<notin> set h'" by blast
    with a show ?thesis by blast
  qed
  have c: "\<exists>n' p'. user = n' @ CHR '':'' # p' \<and> CHR '':'' \<notin> set n' \<and> splitpasswd user = (n', Some p')"
    if "CHR '':'' \<in> set user"
  proof -
    from split_list_first [OF that] obtain n' p' where
      "user = n' @ CHR '':'' # p'" "CHR '':'' \<notin> set n'" by blast
    with splitpasswd_first_colon [of n' p'] show ?thesis by blast
  qed
  show ?thesis
    using a b c splituser_no_at [of host] splitpasswd_no_colon [of user]
      splitpasswd_first_colon [of n p]
    by blast
qed

text \<open>
  An instance: \<^verbatim>\<open>user:pass@host\<close>, and a host alone.
\<close>

theorem splituser_splitpasswd_split_witness:
  "CHR 0x0A \<notin> set ''user:pass@host'' \<and>
   splituser ''user:pass@host'' = (Some ''user:pass'', ''host'') \<and>
   splitpasswd ''user:pass'' = (''user'', Some ''pass'') \<and>
   CHR 0x0A \<notin> set ''host'' \<and>
   splituser ''host'' = (None, ''host'') \<and>
   splitpasswd ''user'' = (''user'', None)"
proof -
  have n1: "CHR 0x0A \<notin> set ''user:pass@host''" by simp
  have n2: "CHR 0x0A \<notin> set ''host''" by simp
  from splituser_splitpasswd_split [OF n1, where u = "''user:pass''" and h = "''host''"
      and user = "''user:pass''" and n = "''user''" and p = "''pass''"]
    splituser_splitpasswd_split [OF n2, where user = "''user''"]
  show ?thesis by simp
qed

section \<open>\<^verbatim>\<open>can_handle\<close>\<close>

lemma can_handle_wrong_scheme:
  "scheme (parse_url env source) \<notin> set [''http'', ''https'', ''ftp'', ''file''] \<Longrightarrow>
   can_handle env source = PyStr ''Wrong source type''"
  by (simp add: can_handle_def)

lemma can_handle_known_scheme:
  "scheme (parse_url env source) \<in> set [''http'', ''https'', ''ftp'', ''file''] \<Longrightarrow>
   can_handle env source = PyBool (get_archive_handler env (base_url env source) \<noteq> None)"
  by (auto simp: can_handle_def Let_def)

text \<open>
  Claim C1: for every URL whose scheme is outside http, https, ftp and file,
  \<open>can_handle\<close> reports a not-applicable, falsy decision.

  For such a URL the method returns the string \<^verbatim>\<open>"Wrong source type"\<close>, which is not
  \<^verbatim>\<open>False\<close> and whose truth value is \<^verbatim>\<open>True\<close>, as the comment at lines 66 and 67 of
  the source says. Evaluated at \<^verbatim>\<open>foo://\<close>:
\<close>

theorem can_handle_foo_is_truthy:
  "can_handle ex_env ''foo://'' = PyStr ''Wrong source type'' \<and>
   truthy (can_handle ex_env ''foo://'') \<and>
   can_handle ex_env ''foo://'' \<noteq> PyBool False"
  by (simp add: can_handle_def ex_env_def ex_urlparse_def no_parts_def)

section \<open>The state and the calls of a run\<close>

lemma log_simps [simp]:
  "fs (log c w) = fs w" "opener (log c w) = opener w" "calls (log c w) = calls w @ [c]"
  by (simp_all add: log_def)

lemma new_calls_append: "calls w' = calls w @ cs \<Longrightarrow> new_calls w w' = cs"
  by (simp add: new_calls_def)

lemma new_calls_same [simp]: "new_calls w w = []"
  by (simp add: new_calls_def)

lemma authenticate_cases:
  "authenticate env w source = (w, source) \<or>
   (\<exists>u n p. authenticate env w source =
      (log (InstallOpener u n p) (w\<lparr>opener := Some (u, n, p)\<rparr>), u))"
  by (auto simp: authenticate_def Let_def split: prod.splits option.splits)

lemma authenticate_fs: "authenticate env w source = (w1, source1) \<Longrightarrow> fs w1 = fs w"
  using authenticate_cases [of env w source] by auto

lemma authenticate_calls:
  "authenticate env w source = (w1, source1) \<Longrightarrow>
   calls w1 = calls w @ new_calls w w1 \<and> (\<forall>c\<in>set (new_calls w w1). \<exists>u n p. c = InstallOpener u n p)"
  using authenticate_cases [of env w source] by (auto simp: new_calls_def)

lemma authenticate_other_scheme:
  "scheme (urlparse env source) \<notin> set [''http'', ''https''] \<Longrightarrow>
   authenticate env w source = (w, source)"
  by (simp add: authenticate_def Let_def)

lemma write_body_other_paths:
  "write_body env f resp dest = (f', r) \<Longrightarrow> (\<forall>p. p \<noteq> dest \<longrightarrow> f' p = f p)"
  by (auto simp: write_body_def Let_def split: option.splits node.splits sum.splits prod.splits)


lemma cleanup_cases:
  "cleanup env w dest e =
     (if \<not> isfile (fs w) dest then (w, Inl e)
      else case unlink_fault env (fs w) dest of
             Some e' \<Rightarrow> (log (Unlink dest) w, Inl e')
           | None \<Rightarrow> (log (Unlink dest) (w\<lparr>fs := unlink (fs w) dest\<rparr>), Inl e))"
  by (simp add: cleanup_def)

lemma download_unfold:
  assumes "authenticate env w source = (w1, source1)"
  shows "download env w source dest =
     (case urlopen env (opener w1) source1 of
        Inl e \<Rightarrow> (log (Urlopen source1) w1, Inl e)
      | Inr resp \<Rightarrow>
        (case write_body env (fs w1) resp dest of
           (f, Inr u) \<Rightarrow> ((log (Urlopen source1) w1)\<lparr>fs := f\<rparr>, Inr u)
         | (f, Inl e) \<Rightarrow>
             if is_Exception e then cleanup env ((log (Urlopen source1) w1)\<lparr>fs := f\<rparr>) dest e
             else ((log (Urlopen source1) w1)\<lparr>fs := f\<rparr>, Inl e)))"
  by (simp add: download_def assms Let_def split: sum.splits prod.splits)

text \<open>
  The definitions that evaluate a run in the concrete environment, and two ways to name
  the components of a result.
\<close>

lemmas ex_defs = install_def fetch_def ensure_dest_dir_def download_def authenticate_def
  write_body_def cleanup_def mkdir_def verify_and_extract_def check_explicit_def add_calls_def log_def
  new_calls_def dest_dir_def dld_file_def path_join_def basename_def path_exists_def isfile_def
  unlink_def splituser_def userprog_match_def dot_def at_end_def ex_env_def ex_world_def
  ex_urlparse_def no_parts_def ex_parse_qs_def ex_check_hash_def ex_digest_def perms_0o755_def
  Let_def

lemma collapse_snd: "snd p = b \<Longrightarrow> p = (fst p, b)"
  by (metis prod.collapse)

lemma pair_fst_snd: "p = (fst p, snd p)"
  by simp

lemma string_of_nat_2: "string_of_nat 2 = ''2''"
  by code_simp

section \<open>\<^verbatim>\<open>download\<close>\<close>

text \<open>
  Claim C9: when the scheme of the source is neither http nor https, \<open>download\<close>
  extracts no credentials and installs no opener, and the URL it opens is the source as
  given, whatever its network location holds: the authentication step returns the state
  and the source unchanged, the installed opener after the download is the one before it,
  and the calls of the download are one \<^verbatim>\<open>urlopen\<close> of the source, followed at most by
  the unlinking of the destination.
\<close>

theorem download_other_scheme_keeps_source:
  assumes "scheme (urlparse env source) \<notin> set [''http'', ''https'']"
  shows "authenticate env w source = (w, source) \<and>
         opener (fst (download env w source dest)) = opener w \<and>
         (new_calls w (fst (download env w source dest)) = [Urlopen source] \<or>
          new_calls w (fst (download env w source dest)) = [Urlopen source, Unlink dest])"
proof -
  have a: "authenticate env w source = (w, source)"
    using assms by (rule authenticate_other_scheme)
  show ?thesis
    by (simp add: a download_unfold [OF a] cleanup_def new_calls_def
        split: sum.splits prod.splits option.splits)
qed

text \<open>
  An instance: an ftp URL whose network location holds a user name and a password.
\<close>

theorem download_other_scheme_keeps_source_witness:
  "scheme (urlparse ex_env ''ftp://user:pw@example.com/file.tgz'') = ''ftp'' \<and>
   netloc (urlparse ex_env ''ftp://user:pw@example.com/file.tgz'') = ''user:pw@example.com'' \<and>
   opener (fst (download ex_env ex_world ''ftp://user:pw@example.com/file.tgz''
                  ''/srv/charm/fetched/file.tgz'')) = None \<and>
   new_calls ex_world (fst (download ex_env ex_world ''ftp://user:pw@example.com/file.tgz''
                  ''/srv/charm/fetched/file.tgz'')) = [Urlopen ''ftp://user:pw@example.com/file.tgz'']"
proof -
  have h: "scheme (urlparse ex_env ''ftp://user:pw@example.com/file.tgz'') \<notin> set [''http'', ''https'']"
    by (simp add: ex_env_def ex_urlparse_def no_parts_def)
  have n: "Unlink ''/srv/charm/fetched/file.tgz'' \<notin> set (new_calls ex_world
      (fst (download ex_env ex_world ''ftp://user:pw@example.com/file.tgz'' ''/srv/charm/fetched/file.tgz'')))"
    by (simp add: ex_defs)
  have o: "opener ex_world = None" by (simp add: ex_world_def)
  from download_other_scheme_keeps_source [OF h, of ex_world "''/srv/charm/fetched/file.tgz''"] n o
  show ?thesis
    by (auto simp: ex_env_def ex_urlparse_def no_parts_def)
qed




section \<open>\<^verbatim>\<open>install\<close>\<close>

subsection \<open>The loop over the fragment\<close>

lemma check_options_calls:
  "check_options env f file opts = (cs, r) \<Longrightarrow> c \<in> set cs \<Longrightarrow>
   \<exists>x k. c = CheckHash file x k \<and> k \<in> set (algorithms_available env) \<and> (k, [x]) \<in> set opts"
proof (induction opts arbitrary: cs r)
  case Nil
  then show ?case by simp
next
  case (Cons kv rest)
  obtain key vals where kv: "kv = (key, vals)" by (cases kv)
  show ?case
  proof (cases "key \<in> set (algorithms_available env)")
    case False
    with Cons.prems kv have "check_options env f file rest = (cs, r)" by simp
    from Cons.IH [OF this Cons.prems(2)] show ?thesis by auto
  next
    case True
    show ?thesis
    proof (cases "\<exists>x. vals = [x]")
      case False
      with Cons.prems kv True have "cs = []" by (auto split: list.splits)
      with Cons.prems(2) show ?thesis by simp
    next
      case single: True
      then obtain x where x: "vals = [x]" by blast
      show ?thesis
      proof (cases "check_hash env f file x key")
        case (Some e)
        with Cons.prems kv True x have "cs = [CheckHash file x key]" by simp
        with Cons.prems(2) kv True x show ?thesis by auto
      next
        case None
        obtain cs' r' where rest: "check_options env f file rest = (cs', r')"
          by (cases "check_options env f file rest")
        with Cons.prems kv True x None have cs: "cs = CheckHash file x key # cs'" by simp
        show ?thesis
        proof (cases "c = CheckHash file x key")
          case True
          with kv x \<open>key \<in> set (algorithms_available env)\<close> show ?thesis by auto
        next
          case False
          with cs Cons.prems(2) have "c \<in> set cs'" by simp
          from Cons.IH [OF rest this] show ?thesis by auto
        qed
      qed
    qed
  qed
qed

lemma check_options_failed:
  "check_options env f file opts = (cs, r) \<Longrightarrow> CheckHash file x k \<in> set cs \<Longrightarrow>
   check_hash env f file x k = Some e \<Longrightarrow> r = Inl e"
proof (induction opts arbitrary: cs r)
  case Nil
  then show ?case by simp
next
  case (Cons kv rest)
  obtain key vals where kv: "kv = (key, vals)" by (cases kv)
  obtain cs' r' where rest: "check_options env f file rest = (cs', r')"
    by (cases "check_options env f file rest")
  note IH = Cons.IH [OF rest _ Cons.prems(3)]
  from Cons.prems(1,2) kv rest show ?case
    using IH Cons.prems(3)
    by (auto split: if_splits list.splits option.splits)
qed

lemma check_options_passed:
  "check_options env f file opts = (cs, Inr u) \<Longrightarrow> (k, vs) \<in> set opts \<Longrightarrow>
   k \<in> set (algorithms_available env) \<Longrightarrow>
   \<exists>x. vs = [x] \<and> check_hash env f file x k = None \<and> CheckHash file x k \<in> set cs"
proof (induction opts arbitrary: cs)
  case Nil
  then show ?case by simp
next
  case (Cons kv rest)
  obtain key vals where kv: "kv = (key, vals)" by (cases kv)
  obtain cs' r' where rest: "check_options env f file rest = (cs', r')"
    by (cases "check_options env f file rest")
  note IH = Cons.IH [OF _ _ Cons.prems(3)]
  from Cons.prems kv rest show ?case
    using IH
    by (auto split: if_splits list.splits option.splits)
qed

lemma check_options_prefix:
  "\<forall>(k, v)\<in>set pre. k \<in> set (algorithms_available env) \<longrightarrow>
      (\<exists>x. v = [x] \<and> check_hash env f file x k = None) \<Longrightarrow>
   check_options env f file (pre @ rest) =
     (map (\<lambda>(k, v). CheckHash file (hd v) k)
          (filter (\<lambda>(k, v). k \<in> set (algorithms_available env)) pre)
        @ fst (check_options env f file rest),
      snd (check_options env f file rest))"
proof (induction pre)
  case Nil
  then show ?case by simp
next
  case (Cons kv pre)
  obtain key vals where kv: "kv = (key, vals)" by (cases kv)
  from Cons.prems have "\<forall>(k, v)\<in>set pre. k \<in> set (algorithms_available env) \<longrightarrow>
      (\<exists>x. v = [x] \<and> check_hash env f file x k = None)" by simp
  note IH = Cons.IH [OF this]
  show ?case
  proof (cases "key \<in> set (algorithms_available env)")
    case False
    then show ?thesis using IH kv by simp
  next
    case True
    with Cons.prems kv obtain x where "vals = [x]" "check_hash env f file x key = None"
      by auto
    then show ?thesis using IH kv True by simp
  qed
qed

lemma check_options_multi:
  "key \<in> set (algorithms_available env) \<Longrightarrow> 1 < length vs \<Longrightarrow>
   check_options env f file ((key, vs) # post) =
     ([], Inl (TypeError (''Expected 1 hash value, not '' @ string_of_nat (length vs))))"
  by (cases vs) (auto split: list.splits)

subsection \<open>The calls of each step\<close>

lemma new_calls_trans:
  "calls w1 = calls w @ new_calls w w1 \<Longrightarrow> calls w2 = calls w1 @ new_calls w1 w2 \<Longrightarrow>
   calls w2 = calls w @ new_calls w w2 \<and> new_calls w w2 = new_calls w w1 @ new_calls w1 w2"
  by (metis append.assoc new_calls_append)

lemma download_calls:
  assumes "download env w source dest = (w', r)"
  shows "calls w' = calls w @ new_calls w w'"
    and "c \<in> set (new_calls w w') \<Longrightarrow>
         (\<exists>u n p. c = InstallOpener u n p) \<or> (\<exists>u. c = Urlopen u) \<or> c = Unlink dest"
proof -
  obtain w1 source1 where a: "authenticate env w source = (w1, source1)"
    by (cases "authenticate env w source")
  from authenticate_calls [OF a] obtain cs where
    cs: "calls w1 = calls w @ cs" "\<forall>c\<in>set cs. \<exists>u n p. c = InstallOpener u n p"
    by blast
  have "\<exists>t. calls w' = calls w @ cs @ Urlopen source1 # t \<and> (t = [] \<or> t = [Unlink dest])"
    using assms cs(1)
    by (auto simp: download_unfold [OF a] cleanup_def
        split: sum.splits prod.splits if_splits option.splits)
  then obtain t where t: "calls w' = calls w @ cs @ Urlopen source1 # t" "t = [] \<or> t = [Unlink dest]"
    by blast
  from t(1) have n: "new_calls w w' = cs @ Urlopen source1 # t" by (rule new_calls_append)
  show "calls w' = calls w @ new_calls w w'" using t(1) n by simp
  show "(\<exists>u n p. c = InstallOpener u n p) \<or> (\<exists>u. c = Urlopen u) \<or> c = Unlink dest"
    if "c \<in> set (new_calls w w')"
    using that n cs(2) t(2) by auto
qed

lemma ensure_dest_dir_calls:
  assumes "ensure_dest_dir env w d = (w1, r)"
  shows "calls w1 = calls w @ (if path_exists (fs w) d then [] else [Mkdir d perms_0o755])"
    and "opener w1 = opener w"
    and "path_exists (fs w) d \<Longrightarrow> w1 = w \<and> r = Inr ()"
    and "\<not> path_exists (fs w) d \<Longrightarrow>
         (case mkdir env (fs w) d perms_0o755 of Inl e \<Rightarrow> r = Inl e \<and> fs w1 = fs w | Inr f \<Rightarrow> r = Inr () \<and> fs w1 = f)"
  using assms by (auto simp: ensure_dest_dir_def split: if_splits sum.splits)

lemma fetch_cases:
  assumes "fetch env w source = (w', r)"
  shows "(environ_CHARM_DIR env = None \<and> w' = w \<and>
            r = Inl (TypeError ''expected str, bytes or os.PathLike object, not NoneType'')) \<or>
         (\<exists>root e. environ_CHARM_DIR env = Some root \<and>
            ensure_dest_dir env w (dest_dir root) = (w', Inl e) \<and> r = Inl e) \<or>
         (\<exists>root w1 r1. environ_CHARM_DIR env = Some root \<and>
            ensure_dest_dir env w (dest_dir root) = (w1, Inr ()) \<and>
            download env (log (Download source (dld_file env root source)) w1) source
              (dld_file env root source) = (w', r1) \<and>
            r = (case r1 of Inl e \<Rightarrow> Inl (reraise e) | Inr u \<Rightarrow> Inr (dld_file env root source)))"
  using assms
  by (auto simp: fetch_def split: option.splits prod.splits sum.splits)

lemma fetch_calls:
  assumes "fetch env w source = (w', r)"
  shows "calls w' = calls w @ new_calls w w'"
    and "c \<in> set (new_calls w w') \<Longrightarrow> \<not> is_CheckHash c \<and> \<not> is_Extract c"
proof -
  have "calls w' = calls w @ new_calls w w' \<and>
        (\<forall>c\<in>set (new_calls w w'). \<not> is_CheckHash c \<and> \<not> is_Extract c)"
    using fetch_cases [OF assms]
  proof (elim disjE exE conjE)
    assume "w' = w"
    then show ?thesis by simp
  next
    fix root e
    assume "ensure_dest_dir env w (dest_dir root) = (w', Inl e)"
    from ensure_dest_dir_calls(1) [OF this] show ?thesis
      by (auto simp: new_calls_def)
  next
    fix root w1 r1
    let ?dl = "dld_file env root source"
    let ?w2 = "log (Download source ?dl) w1"
    assume e: "ensure_dest_dir env w (dest_dir root) = (w1, Inr ())"
      and d: "download env ?w2 source ?dl = (w', r1)"
    define m where "m = (if path_exists (fs w) (dest_dir root) then [] else [Mkdir (dest_dir root) perms_0o755])"
    have c0: "calls w1 = calls w @ m"
      unfolding m_def by (rule ensure_dest_dir_calls(1) [OF e])
    have c1: "calls ?w2 = calls w @ m @ [Download source ?dl]"
      by (simp add: c0)
    have c2: "calls w' = calls ?w2 @ new_calls ?w2 w'" by (rule download_calls(1) [OF d])
    have n: "new_calls w w' = m @ [Download source ?dl] @ new_calls ?w2 w'"
      by (rule new_calls_append) (simp add: c2 c0)
    have "\<forall>c\<in>set (new_calls ?w2 w'). \<not> is_CheckHash c \<and> \<not> is_Extract c"
      using download_calls(2) [OF d] by fastforce
    moreover have "\<forall>c\<in>set m. \<not> is_CheckHash c \<and> \<not> is_Extract c" by (simp add: m_def)
    ultimately show ?thesis using n c1 c2 by auto
  qed
  then show "calls w' = calls w @ new_calls w w'"
    and "c \<in> set (new_calls w w') \<Longrightarrow> \<not> is_CheckHash c \<and> \<not> is_Extract c"
    by auto
qed

lemma add_calls_simps [simp]:
  "fs (add_calls cs w) = fs w" "opener (add_calls cs w) = opener w"
  "calls (add_calls cs w) = calls w @ cs" "new_calls w (add_calls cs w) = cs"
  by (simp_all add: add_calls_def new_calls_def)

lemma verify_and_extract_cases:
  assumes "verify_and_extract env w source file dest checksum ht = (w', r)"
    and "check_options env (fs w) file (parse_qs env (fragment (parse_url env source))) = (cs, r0)"
    and "check_explicit env (fs w) file checksum ht = (cs2, r1)"
  shows "fs w' = fs w" and "opener w' = opener w" and "calls w' = calls w @ new_calls w w'"
    and "new_calls w w' =
           (case r0 of Inl e \<Rightarrow> cs
            | Inr u \<Rightarrow> cs @ cs2 @ (case r1 of Inl e \<Rightarrow> [] | Inr u \<Rightarrow> [Extract file dest]))"
    and "r = (case r0 of Inl e \<Rightarrow> Inl e
              | Inr u \<Rightarrow> (case r1 of Inl e \<Rightarrow> Inl e | Inr u \<Rightarrow> extract_archive env (fs w) file dest))"
  using assms
  by (auto simp: verify_and_extract_def split: sum.splits)

lemma fetch_file:
  "fetch env w source = (w1, Inr file) \<Longrightarrow>
   \<exists>root. environ_CHARM_DIR env = Some root \<and> file = dld_file env root source"
  by (auto dest!: fetch_cases split: sum.splits)

lemma install_fetch_failed:
  assumes "install env w source dest checksum ht = (w', r)" and "fetch env w source = (w1, Inl e)"
  shows "w' = w1" and "r = Inl e" and "c \<in> set (new_calls w w') \<Longrightarrow> \<not> is_CheckHash c \<and> \<not> is_Extract c"
proof -
  from assms show w: "w' = w1" and "r = Inl e" by (simp_all add: install_def)
  show "\<not> is_CheckHash c \<and> \<not> is_Extract c" if "c \<in> set (new_calls w w')"
    using fetch_calls(2) [OF assms(2)] that w by blast
qed

lemma install_fetched:
  assumes "install env w source dest checksum ht = (w', r)"
    and "fetch env w source = (w1, Inr file)"
    and "check_options env (fs w1) file (parse_qs env (fragment (parse_url env source))) = (cs, r0)"
    and "check_explicit env (fs w1) file checksum ht = (cs2, r1)"
  shows "fs w' = fs w1"
    and "new_calls w w' = new_calls w w1 @
           (case r0 of Inl e \<Rightarrow> cs
            | Inr u \<Rightarrow> cs @ cs2 @ (case r1 of Inl e \<Rightarrow> [] | Inr u \<Rightarrow> [Extract file dest]))"
    and "r = (case r0 of Inl e \<Rightarrow> Inl e
              | Inr u \<Rightarrow> (case r1 of Inl e \<Rightarrow> Inl e | Inr u \<Rightarrow> extract_archive env (fs w1) file dest))"
proof -
  have v: "verify_and_extract env w1 source file dest checksum ht = (w', r)"
    using assms(1,2) by (simp add: install_def)
  note ve = verify_and_extract_cases [OF v assms(3,4)]
  show "fs w' = fs w1" by (rule ve(1))
  show "r = (case r0 of Inl e \<Rightarrow> Inl e
              | Inr u \<Rightarrow> (case r1 of Inl e \<Rightarrow> Inl e | Inr u \<Rightarrow> extract_archive env (fs w1) file dest))"
    by (rule ve(5))
  have "new_calls w w' = new_calls w w1 @ new_calls w1 w'"
    using new_calls_trans [OF fetch_calls(1) [OF assms(2)] ve(3)] by simp
  then show "new_calls w w' = new_calls w w1 @
           (case r0 of Inl e \<Rightarrow> cs
            | Inr u \<Rightarrow> cs @ cs2 @ (case r1 of Inl e \<Rightarrow> [] | Inr u \<Rightarrow> [Extract file dest]))"
    by (simp only: ve(4))
qed

lemma check_explicit_cases:
  "check_explicit env f file checksum ht = (cs2, r1) \<Longrightarrow>
   ((checksum = None \<or> checksum = Some []) \<and> cs2 = [] \<and> r1 = Inr ()) \<or>
   (\<exists>c. checksum = Some c \<and> c \<noteq> [] \<and> cs2 = [CheckHash file c ht] \<and>
        r1 = (case check_hash env f file c ht of Some e \<Rightarrow> Inl e | None \<Rightarrow> Inr ()))"
  by (auto simp: check_explicit_def split: option.splits if_splits)

lemma check_options_only_checks:
  "check_options env f dl opts = (cs, r) \<Longrightarrow> c \<in> set cs \<Longrightarrow> is_CheckHash c \<and> \<not> is_Extract c"
  by (drule (1) check_options_calls) auto

lemma check_explicit_only_checks:
  "check_explicit env f dl checksum ht = (cs2, r1) \<Longrightarrow> c \<in> set cs2 \<Longrightarrow> is_CheckHash c \<and> \<not> is_Extract c"
  by (drule check_explicit_cases) auto

text \<open>A check that was made and failed: the run ends with its exception, before extraction.\<close>

lemma install_failed_check:
  assumes i: "install env w source dest checksum ht = (w', r)"
    and m: "CheckHash f x a \<in> set (new_calls w w')"
    and h: "check_hash env (fs w') f x a = Some e"
  shows "r = Inl e" and "\<forall>c\<in>set (new_calls w w'). \<not> is_Extract c"
proof -
  obtain w1 rf where fe: "fetch env w source = (w1, rf)" by (cases "fetch env w source")
  have "r = Inl e \<and> (\<forall>c\<in>set (new_calls w w'). \<not> is_Extract c)"
  proof (cases rf)
    case (Inl e0)
    from install_fetch_failed(3) [OF i fe [unfolded Inl] m] show ?thesis by simp
  next
    case (Inr dl)
    note fe = fe [unfolded Inr]
    obtain cs r0 where
      co: "check_options env (fs w1) dl (parse_qs env (fragment (parse_url env source))) = (cs, r0)"
      by (cases "check_options env (fs w1) dl (parse_qs env (fragment (parse_url env source)))")
    obtain cs2 r1 where ce: "check_explicit env (fs w1) dl checksum ht = (cs2, r1)"
      by (cases "check_explicit env (fs w1) dl checksum ht")
    note run = install_fetched [OF i fe co ce]
    have nf: "\<And>c. c \<in> set (new_calls w w1) \<Longrightarrow> \<not> is_CheckHash c \<and> \<not> is_Extract c"
      by (rule fetch_calls(2) [OF fe])
    have ncs: "\<And>c. c \<in> set cs \<Longrightarrow> \<not> is_Extract c"
      using check_options_only_checks [OF co] by blast
    have ncs2: "\<And>c. c \<in> set cs2 \<Longrightarrow> \<not> is_Extract c"
      using check_explicit_only_checks [OF ce] by blast
    have h1: "check_hash env (fs w1) f x a = Some e" using h run(1) by simp
    have notfetch: "CheckHash f x a \<notin> set (new_calls w w1)" using nf by fastforce
    show ?thesis
    proof (cases r0)
      case (Inl e0)
      with run have n: "new_calls w w' = new_calls w w1 @ cs" and r: "r = Inl e0" by simp_all
      from m n notfetch have incs: "CheckHash f x a \<in> set cs" by simp
      from check_options_calls [OF co incs] have "f = dl" by auto
      with check_options_failed [OF co] incs h1 Inl have "e0 = e" by auto
      with r n nf ncs show ?thesis by auto
    next
      case r0: (Inr u)
      have notcs: "CheckHash f x a \<notin> set cs"
      proof
        assume incs: "CheckHash f x a \<in> set cs"
        from check_options_calls [OF co incs] have "f = dl" by auto
        with check_options_failed [OF co] incs h1 r0 show False by auto
      qed
      show ?thesis
      proof (cases r1)
        case (Inl e1)
        with run r0 have n: "new_calls w w' = new_calls w w1 @ cs @ cs2" and r: "r = Inl e1"
          by simp_all
        from m n notfetch notcs have "CheckHash f x a \<in> set cs2" by simp
        with check_explicit_cases [OF ce] h1 Inl have "e1 = e" by auto
        with r n nf ncs ncs2 show ?thesis by auto
      next
        case (Inr u1)
        with run r0 have n: "new_calls w w' = new_calls w w1 @ cs @ cs2 @ [Extract dl dest]"
          by simp
        from m n notfetch notcs have "CheckHash f x a \<in> set cs2" by simp
        with check_explicit_cases [OF ce] h1 Inr show ?thesis by auto
      qed
    qed
  qed
  then show "r = Inl e" and "\<forall>c\<in>set (new_calls w w'). \<not> is_Extract c" by simp_all
qed

text \<open>When extraction was called, every applicable check had been made and had passed.\<close>

lemma install_extract_called:
  assumes i: "install env w source dest checksum ht = (w', r)"
    and m: "Extract f d \<in> set (new_calls w w')"
  shows "\<exists>w1 cs cs2. fetch env w source = (w1, Inr f) \<and> fs w' = fs w1 \<and> d = dest \<and>
           check_options env (fs w') f (parse_qs env (fragment (parse_url env source))) = (cs, Inr ()) \<and>
           check_explicit env (fs w') f checksum ht = (cs2, Inr ()) \<and>
           set cs \<subseteq> set (new_calls w w') \<and> set cs2 \<subseteq> set (new_calls w w') \<and>
           r = extract_archive env (fs w') f dest"
proof -
  obtain w1 rf where fe: "fetch env w source = (w1, rf)" by (cases "fetch env w source")
  show ?thesis
  proof (cases rf)
    case (Inl e0)
    from install_fetch_failed(3) [OF i fe [unfolded Inl] m] show ?thesis by simp
  next
    case (Inr dl)
    note fe = fe [unfolded Inr]
    obtain cs r0 where
      co: "check_options env (fs w1) dl (parse_qs env (fragment (parse_url env source))) = (cs, r0)"
      by (cases "check_options env (fs w1) dl (parse_qs env (fragment (parse_url env source)))")
    obtain cs2 r1 where ce: "check_explicit env (fs w1) dl checksum ht = (cs2, r1)"
      by (cases "check_explicit env (fs w1) dl checksum ht")
    note run = install_fetched [OF i fe co ce]
    have nf: "Extract f d \<notin> set (new_calls w w1)"
      using fetch_calls(2) [OF fe] by fastforce
    have ncs: "Extract f d \<notin> set cs"
      using check_options_only_checks [OF co] by fastforce
    have ncs2: "Extract f d \<notin> set cs2"
      using check_explicit_only_checks [OF ce] by fastforce
    have r0: "r0 = Inr ()"
    proof (cases r0)
      case (Inl e)
      with run(2) m nf ncs show ?thesis by simp
    qed simp
    have r1: "r1 = Inr ()"
    proof (cases r1)
      case (Inl e)
      with run(2) r0 m nf ncs ncs2 show ?thesis by simp
    qed simp
    from run(2) r0 r1 have n: "new_calls w w' = new_calls w w1 @ cs @ cs2 @ [Extract dl dest]"
      by simp
    with m nf ncs ncs2 have fd: "f = dl" "d = dest" by simp_all
    from run(3) r0 r1 have r: "r = extract_archive env (fs w1) dl dest" by simp
    show ?thesis
      using fe co ce run(1) r0 r1 n fd r by auto
  qed
qed

lemma install_success_extract:
  assumes i: "install env w source dest checksum ht = (w', Inr p)"
  shows "\<exists>f. Extract f dest \<in> set (new_calls w w')"
proof -
  obtain w1 rf where fe: "fetch env w source = (w1, rf)" by (cases "fetch env w source")
  show ?thesis
  proof (cases rf)
    case (Inl e0)
    from install_fetch_failed(2) [OF i fe [unfolded Inl]] show ?thesis by simp
  next
    case (Inr dl)
    note fe = fe [unfolded Inr]
    obtain cs r0 where
      co: "check_options env (fs w1) dl (parse_qs env (fragment (parse_url env source))) = (cs, r0)"
      by (cases "check_options env (fs w1) dl (parse_qs env (fragment (parse_url env source)))")
    obtain cs2 r1 where ce: "check_explicit env (fs w1) dl checksum ht = (cs2, r1)"
      by (cases "check_explicit env (fs w1) dl checksum ht")
    note run = install_fetched [OF i fe co ce]
    from run(3) have "r0 = Inr () \<and> r1 = Inr ()" by (auto split: sum.splits)
    with run(2) show ?thesis by auto
  qed
qed

lemma install_extract_checked:
  assumes i: "install env w source dest checksum ht = (w', r)"
    and m: "Extract f d \<in> set (new_calls w w')"
  shows "(k, vs) \<in> set (parse_qs env (fragment (parse_url env source))) \<Longrightarrow>
         k \<in> set (algorithms_available env) \<Longrightarrow>
         \<exists>x. vs = [x] \<and> CheckHash f x k \<in> set (new_calls w w') \<and> check_hash env (fs w') f x k = None"
    and "checksum = Some c \<Longrightarrow> c \<noteq> [] \<Longrightarrow>
         CheckHash f c ht \<in> set (new_calls w w') \<and> check_hash env (fs w') f c ht = None"
    and "environ_CHARM_DIR env = Some root \<Longrightarrow> f = dld_file env root source"
    and "d = dest" and "r = extract_archive env (fs w') f dest"
proof -
  from install_extract_called [OF i m] obtain w1 cs cs2 where
    fe: "fetch env w source = (w1, Inr f)" and d: "d = dest"
    and co: "check_options env (fs w') f (parse_qs env (fragment (parse_url env source))) = (cs, Inr ())"
    and ce: "check_explicit env (fs w') f checksum ht = (cs2, Inr ())"
    and sub: "set cs \<subseteq> set (new_calls w w')" "set cs2 \<subseteq> set (new_calls w w')"
    and r: "r = extract_archive env (fs w') f dest"
    by blast
  show "d = dest" by (rule d)
  show "r = extract_archive env (fs w') f dest" by (rule r)
  show "f = dld_file env root source" if "environ_CHARM_DIR env = Some root"
    using fetch_file [OF fe] that by auto
  show "\<exists>x. vs = [x] \<and> CheckHash f x k \<in> set (new_calls w w') \<and> check_hash env (fs w') f x k = None"
    if "(k, vs) \<in> set (parse_qs env (fragment (parse_url env source)))"
      and "k \<in> set (algorithms_available env)"
    using check_options_passed [OF co that] sub(1) by blast
  show "CheckHash f c ht \<in> set (new_calls w w') \<and> check_hash env (fs w') f c ht = None"
    if "checksum = Some c" and "c \<noteq> []"
    using check_explicit_cases [OF ce] that sub(2) by (auto split: option.splits)
qed

lemma download_no_mkdir:
  "download env w source dest = (w', r) \<Longrightarrow> c \<in> set (new_calls w w') \<Longrightarrow> \<not> is_Mkdir c"
  by (drule (1) download_calls(2)) auto

lemma fetch_shape:
  assumes root: "environ_CHARM_DIR env = Some root" and fe: "fetch env w source = (w1, rf)"
  shows "\<exists>rest. new_calls w w1 =
             (if path_exists (fs w) (dest_dir root) then [] else [Mkdir (dest_dir root) perms_0o755]) @ rest \<and>
           (\<forall>c\<in>set rest. \<not> is_Mkdir c) \<and>
           (case rest of [] \<Rightarrow> \<exists>e. rf = Inl e
            | c # t \<Rightarrow> c = Download source (dld_file env root source))"
  using fetch_cases [OF fe]
proof (elim disjE exE conjE)
  assume "environ_CHARM_DIR env = None"
  with root show ?thesis by simp
next
  fix root' e
  assume r': "environ_CHARM_DIR env = Some root'"
    and e: "ensure_dest_dir env w (dest_dir root') = (w1, Inl e)" and rf: "rf = Inl e"
  from r' root have eq: "root' = root" by simp
  have "new_calls w w1 =
     (if path_exists (fs w) (dest_dir root) then [] else [Mkdir (dest_dir root) perms_0o755])"
    by (rule new_calls_append) (rule ensure_dest_dir_calls(1) [OF e [unfolded eq]])
  with rf show ?thesis by simp
next
  fix root' w0 r1
  assume r': "environ_CHARM_DIR env = Some root'"
    and e: "ensure_dest_dir env w (dest_dir root') = (w0, Inr ())"
    and d: "download env (log (Download source (dld_file env root' source)) w0) source
              (dld_file env root' source) = (w1, r1)"
  from r' root have eq: "root' = root" by simp
  let ?dl = "dld_file env root source"
  let ?w2 = "log (Download source ?dl) w0"
  define m where "m = (if path_exists (fs w) (dest_dir root) then [] else [Mkdir (dest_dir root) perms_0o755])"
  have c0: "calls w0 = calls w @ m"
    unfolding m_def by (rule ensure_dest_dir_calls(1) [OF e [unfolded eq]])
  have c2: "calls w1 = calls ?w2 @ new_calls ?w2 w1"
    by (rule download_calls(1) [OF d [unfolded eq]])
  have n: "new_calls w w1 = m @ Download source ?dl # new_calls ?w2 w1"
    by (rule new_calls_append) (simp add: c2 c0)
  have "\<forall>c\<in>set (Download source ?dl # new_calls ?w2 w1). \<not> is_Mkdir c"
    using download_no_mkdir [OF d [unfolded eq]] by simp
  with n show ?thesis unfolding m_def by (intro exI [of _ "Download source ?dl # new_calls ?w2 w1"]) simp
qed

subsection \<open>The directory and the download path\<close>

lemma cleanup_fs_other: "p \<noteq> dest \<Longrightarrow> fs (fst (cleanup env w dest e)) p = fs w p"
  by (simp add: cleanup_def unlink_def split: option.splits)

lemma download_fs_other:
  assumes d: "download env w source dest = (w', r)" and p: "p \<noteq> dest"
  shows "fs w' p = fs w p"
proof -
  obtain w1 source1 where a: "authenticate env w source = (w1, source1)"
    by (cases "authenticate env w source")
  have f1: "fs w1 = fs w" by (rule authenticate_fs [OF a])
  show ?thesis
  proof (cases "urlopen env (opener w1) source1")
    case (Inl e)
    with d f1 show ?thesis by (auto simp: download_unfold [OF a])
  next
    case (Inr resp)
    obtain f rb where wb: "write_body env (fs w1) resp dest = (f, rb)"
      by (cases "write_body env (fs w1) resp dest")
    from write_body_other_paths [OF wb] p f1 have fp: "f p = fs w p" by simp
    show ?thesis
    proof (cases rb)
      case (Inl e)
      let ?w2 = "(log (Urlopen source1) w1)\<lparr>fs := f\<rparr>"
      from d Inr wb Inl
      have "w' = (if is_Exception e then fst (cleanup env ?w2 dest e) else ?w2)"
        by (auto simp: download_unfold [OF a] split: if_splits)
      with cleanup_fs_other [OF p, of env ?w2 e] fp show ?thesis by (simp split: if_splits)
    next
      case (Inr u)
      with d \<open>urlopen env (opener w1) source1 = Inr resp\<close> wb fp show ?thesis
        by (auto simp: download_unfold [OF a])
    qed
  qed
qed

lemma verify_and_extract_fs:
  "verify_and_extract env w source dl dest checksum ht = (w', r) \<Longrightarrow> fs w' = fs w"
  by (auto simp: verify_and_extract_def split: prod.splits sum.splits)

lemma basename_no_slash: "CHR ''/'' \<notin> set (basename p)"
  by (auto simp: basename_def dest: set_takeWhileD)

lemma dest_dir_last: "dest_dir root \<noteq> [] \<and> last (dest_dir root) \<noteq> CHR ''/''"
  by (simp add: dest_dir_def path_join_def)

lemma dld_file_eq:
  "dld_file env root source = dest_dir root @ ''/'' @ basename (path (parse_url env source))"
proof -
  have "basename (path (parse_url env source)) = [] \<or>
        hd (basename (path (parse_url env source))) \<noteq> CHR ''/''"
    using basename_no_slash [of "path (parse_url env source)"]
    by (cases "basename (path (parse_url env source))") auto
  then show ?thesis
    using dest_dir_last [of root] by (auto simp: dld_file_def path_join_def)
qed

lemma dld_file_neq_dest_dir: "dest_dir root \<noteq> dld_file env root source"
  by (simp add: dld_file_eq)

lemma install_calls_shape:
  assumes root: "environ_CHARM_DIR env = Some root"
    and i: "install env w source dest checksum hash_type = (w', r)"
  shows "\<exists>rest. new_calls w w' =
             (if path_exists (fs w) (path_join root ''fetched'') then []
              else [Mkdir (path_join root ''fetched'') perms_0o755]) @ rest \<and>
           (\<forall>c\<in>set rest. \<not> is_Mkdir c) \<and>
           (case rest of [] \<Rightarrow> \<exists>e. r = Inl e
            | c # t \<Rightarrow> c = Download source
                (path_join (path_join root ''fetched'') (basename (path (parse_url env source)))))"
proof -
  obtain w1 rf where fe: "fetch env w source = (w1, rf)" by (cases "fetch env w source")
  from fetch_shape [OF root fe] obtain rest where
    n1: "new_calls w w1 =
           (if path_exists (fs w) (dest_dir root) then [] else [Mkdir (dest_dir root) perms_0o755]) @ rest"
    and nm: "\<forall>c\<in>set rest. \<not> is_Mkdir c"
    and hd: "case rest of [] \<Rightarrow> \<exists>e. rf = Inl e | c # t \<Rightarrow> c = Download source (dld_file env root source)"
    by blast
  have "\<exists>x. new_calls w w' = new_calls w w1 @ x \<and> (\<forall>c\<in>set x. \<not> is_Mkdir c) \<and>
            (rest = [] \<longrightarrow> x = [] \<and> (\<exists>e. r = Inl e))"
  proof (cases rf)
    case (Inl e)
    from install_fetch_failed(1,2) [OF i fe [unfolded Inl]] show ?thesis by simp
  next
    case (Inr dl)
    note fe = fe [unfolded Inr]
    obtain cs r0 where
      co: "check_options env (fs w1) dl (parse_qs env (fragment (parse_url env source))) = (cs, r0)"
      by (cases "check_options env (fs w1) dl (parse_qs env (fragment (parse_url env source)))")
    obtain cs2 r1 where ce: "check_explicit env (fs w1) dl checksum hash_type = (cs2, r1)"
      by (cases "check_explicit env (fs w1) dl checksum hash_type")
    note run = install_fetched [OF i fe co ce]
    have a: "\<forall>c\<in>set cs. \<not> is_Mkdir c" using check_options_calls [OF co] by fastforce
    have b: "\<forall>c\<in>set cs2. \<not> is_Mkdir c" using check_explicit_cases [OF ce] by auto
    from hd Inr have "rest \<noteq> []" by (auto split: list.splits)
    with run(2) a b show ?thesis by (auto split: sum.splits)
  qed
  then obtain x where x: "new_calls w w' = new_calls w w1 @ x" "\<forall>c\<in>set x. \<not> is_Mkdir c"
    "rest = [] \<longrightarrow> x = [] \<and> (\<exists>e. r = Inl e)" by blast
  show ?thesis
    apply (rule exI [of _ "rest @ x"])
    using x n1 nm hd by (auto simp: dest_dir_def dld_file_def split: list.splits)
qed


lemma install_after_ensure:
  assumes root: "environ_CHARM_DIR env = Some root"
    and e: "ensure_dest_dir env w (dest_dir root) = (w1, Inr ())"
  shows "install env w source dest checksum hash_type =
           (case download env (log (Download source (dld_file env root source)) w1) source
                   (dld_file env root source) of
              (w2, Inl e) \<Rightarrow> (w2, Inl (reraise e))
            | (w2, Inr u) \<Rightarrow>
                verify_and_extract env w2 source (dld_file env root source) dest checksum hash_type)"
  by (simp add: install_def fetch_def root e split: prod.splits sum.splits)

lemma install_after_ensure_fs:
  assumes root: "environ_CHARM_DIR env = Some root"
    and e: "ensure_dest_dir env w (dest_dir root) = (w1, Inr ())"
    and i: "install env w source dest checksum hash_type = (w', r)"
  shows "fs w' (dest_dir root) = fs w1 (dest_dir root)"
proof -
  let ?dl = "dld_file env root source"
  let ?w = "log (Download source ?dl) w1"
  obtain w2 rd where d: "download env ?w source ?dl = (w2, rd)"
    by (cases "download env ?w source ?dl")
  have f2: "fs w2 (dest_dir root) = fs w1 (dest_dir root)"
    using download_fs_other [OF d dld_file_neq_dest_dir] by simp
  show ?thesis
  proof (cases rd)
    case (Inl x)
    with i d have "w' = w2" by (simp add: install_after_ensure [OF root e])
    with f2 show ?thesis by simp
  next
    case (Inr u)
    with i d have "verify_and_extract env w2 source ?dl dest checksum hash_type = (w', r)"
      by (simp add: install_after_ensure [OF root e])
    from verify_and_extract_fs [OF this] f2 show ?thesis by simp
  qed
qed

subsection \<open>The claims about \<^verbatim>\<open>install\<close>\<close>

text \<open>
  Claim C8: when \<^verbatim>\<open>CHARM_DIR\<close> is set to \<open>root\<close>, the download path of \<open>install\<close> is
  \<open>root/fetched\<close> joined with the basename of the path of the source URL, and
  \<open>root/fetched\<close> is made with mode \<^verbatim>\<open>0o755\<close> if and only if it does not exist, before
  the download begins:
  \<^item> when the directory exists, \<open>install\<close> is the download of the source to that path
    from the state as it is, followed by the verification and the extraction of that
    file, and the directory is as it was;
  \<^item> when it does not exist and making it fails, \<open>install\<close> ends with that error
    and nothing is downloaded;
  \<^item> when it does not exist and is made, it is a directory of mode \<^verbatim>\<open>0o755\<close> in the
    state the download starts from and in the state \<open>install\<close> ends in;
  \<^item> the calls begin with the creation of the directory exactly when it did not exist,
    no other directory is made, and the next call is the download to the download path.
\<close>

theorem install_download_path_and_directory:
  assumes root: "environ_CHARM_DIR env = Some root"
    and i: "install env w source dest checksum hash_type = (w', r)"
  shows "dest_dir root = path_join root ''fetched'' \<and>
         dld_file env root source =
           path_join (path_join root ''fetched'') (basename (path (parse_url env source))) \<and>
         perms_0o755 = 493 \<and>
         (path_exists (fs w) (dest_dir root) \<longrightarrow>
            fs w' (dest_dir root) = fs w (dest_dir root) \<and>
            (w', r) =
              (case download env (log (Download source (dld_file env root source)) w) source
                      (dld_file env root source) of
                 (w2, Inl e) \<Rightarrow> (w2, Inl (reraise e))
               | (w2, Inr u) \<Rightarrow>
                   verify_and_extract env w2 source (dld_file env root source) dest checksum hash_type)) \<and>
         (\<not> path_exists (fs w) (dest_dir root) \<longrightarrow>
            (case mkdir_fault env (fs w) (dest_dir root) of
               Some e \<Rightarrow> (w', r) = (log (Mkdir (dest_dir root) perms_0o755) w, Inl e)
             | None \<Rightarrow>
                 fs w' (dest_dir root) = Some (Dir perms_0o755) \<and>
                 (w', r) =
                   (case download env
                           (log (Download source (dld_file env root source))
                              (log (Mkdir (dest_dir root) perms_0o755)
                                 (w\<lparr>fs := (fs w)(dest_dir root \<mapsto> Dir perms_0o755)\<rparr>)))
                           source (dld_file env root source) of
                      (w2, Inl e) \<Rightarrow> (w2, Inl (reraise e))
                    | (w2, Inr u) \<Rightarrow>
                        verify_and_extract env w2 source (dld_file env root source) dest checksum
                          hash_type))) \<and>
         (\<exists>rest. new_calls w w' =
             (if path_exists (fs w) (path_join root ''fetched'') then []
              else [Mkdir (path_join root ''fetched'') perms_0o755]) @ rest \<and>
           (\<forall>c\<in>set rest. \<not> is_Mkdir c) \<and>
           (case rest of [] \<Rightarrow> \<exists>e. r = Inl e
            | c # t \<Rightarrow> c = Download source
                (path_join (path_join root ''fetched'') (basename (path (parse_url env source))))))"
proof -
  let ?d = "dest_dir root"
  let ?dl = "dld_file env root source"
  have p1: "dest_dir root = path_join root ''fetched''" by (simp add: dest_dir_def)
  have p2: "?dl = path_join (path_join root ''fetched'') (basename (path (parse_url env source)))"
    by (simp add: dld_file_def dest_dir_def)
  have p3: "perms_0o755 = 493" by (simp add: perms_0o755_def)
  have ex: "fs w' ?d = fs w ?d \<and>
            (w', r) = (case download env (log (Download source ?dl) w) source ?dl of
                 (w2, Inl e) \<Rightarrow> (w2, Inl (reraise e))
               | (w2, Inr u) \<Rightarrow> verify_and_extract env w2 source ?dl dest checksum hash_type)"
    if px: "path_exists (fs w) ?d"
  proof -
    have e: "ensure_dest_dir env w ?d = (w, Inr ())" using px by (simp add: ensure_dest_dir_def)
    from install_after_ensure_fs [OF root e i] install_after_ensure [OF root e] i
    show ?thesis by simp
  qed
  have nex: "(case mkdir_fault env (fs w) ?d of
               Some e \<Rightarrow> (w', r) = (log (Mkdir ?d perms_0o755) w, Inl e)
             | None \<Rightarrow>
                 fs w' ?d = Some (Dir perms_0o755) \<and>
                 (w', r) =
                   (case download env
                           (log (Download source ?dl)
                              (log (Mkdir ?d perms_0o755) (w\<lparr>fs := (fs w)(?d \<mapsto> Dir perms_0o755)\<rparr>)))
                           source ?dl of
                      (w2, Inl e) \<Rightarrow> (w2, Inl (reraise e))
                    | (w2, Inr u) \<Rightarrow> verify_and_extract env w2 source ?dl dest checksum hash_type))"
    if npx: "\<not> path_exists (fs w) ?d"
  proof (cases "mkdir_fault env (fs w) ?d")
    case (Some e)
    with npx have "fetch env w source = (log (Mkdir ?d perms_0o755) w, Inl e)"
      by (simp add: fetch_def root ensure_dest_dir_def mkdir_def)
    with i Some show ?thesis by (simp add: install_def)
  next
    case None
    let ?w1 = "log (Mkdir ?d perms_0o755) (w\<lparr>fs := (fs w)(?d \<mapsto> Dir perms_0o755)\<rparr>)"
    have e: "ensure_dest_dir env w ?d = (?w1, Inr ())"
      using npx None by (simp add: ensure_dest_dir_def mkdir_def)
    from install_after_ensure_fs [OF root e i] install_after_ensure [OF root e] i None
    show ?thesis by simp
  qed
  from p1 p2 p3 ex nex install_calls_shape [OF root i] show ?thesis by blast
qed

text \<open>
  An instance: the directory does not exist yet.
\<close>

theorem install_download_path_and_directory_witness:
  "environ_CHARM_DIR ex_env = Some ''/srv/charm'' \<and>
   \<not> path_exists (fs ex_world) ''/srv/charm/fetched'' \<and>
   mkdir_fault ex_env (fs ex_world) ''/srv/charm/fetched'' = None \<and>
   fs (fst (install ex_env ex_world ''http://example.com/file.tgz'' None None ''sha1''))
      ''/srv/charm/fetched'' = Some (Dir 493) \<and>
   fs (fst (install ex_env ex_world ''http://example.com/file.tgz'' None None ''sha1''))
      ''/srv/charm/fetched/file.tgz'' = Some (File []) \<and>
   (\<exists>rest. new_calls ex_world (fst (install ex_env ex_world ''http://example.com/file.tgz'' None None ''sha1''))
      = Mkdir ''/srv/charm/fetched'' 493
        # Download ''http://example.com/file.tgz'' ''/srv/charm/fetched/file.tgz'' # rest \<and>
      \<not> (\<exists>c\<in>set rest. is_Mkdir c))"
proof -
  let ?u = "''http://example.com/file.tgz''"
  let ?i = "install ex_env ex_world ?u None None ''sha1''"
  have root: "environ_CHARM_DIR ex_env = Some ''/srv/charm''" by (simp add: ex_env_def)
  have dd: "dest_dir ''/srv/charm'' = ''/srv/charm/fetched''"
    by (simp add: dest_dir_def path_join_def)
  have ne: "\<not> path_exists (fs ex_world) ''/srv/charm/fetched''"
    by (simp add: path_exists_def ex_world_def)
  have nf: "mkdir_fault ex_env (fs ex_world) ''/srv/charm/fetched'' = None" by (simp add: ex_env_def)
  have ok: "snd ?i = Inr ''/srv/charm/archives/file''" by (simp add: ex_defs)
  have fl: "fs (fst ?i) ''/srv/charm/fetched/file.tgz'' = Some (File [])" by (simp add: ex_defs)
  have pj: "path_join ''/srv/charm'' ''fetched'' = ''/srv/charm/fetched''"
    by (simp add: path_join_def)
  have bn: "path_join ''/srv/charm/fetched'' (basename (path (parse_url ex_env ?u)))
              = ''/srv/charm/fetched/file.tgz''"
    by (simp add: path_join_def basename_def ex_env_def ex_urlparse_def no_parts_def)
  note th = install_download_path_and_directory [where w = ex_world and source = ?u and dest = None
      and checksum = None and hash_type = "''sha1''", OF root pair_fst_snd]
  have nd: "\<not> path_exists (fs ex_world) (dest_dir ''/srv/charm'')" unfolding dd by (rule ne)
  have nfd: "mkdir_fault ex_env (fs ex_world) (dest_dir ''/srv/charm'') = None"
    by (simp add: ex_env_def)
  from th nd have "case mkdir_fault ex_env (fs ex_world) (dest_dir ''/srv/charm'') of
      Some e \<Rightarrow> (fst ?i, snd ?i) = (log (Mkdir (dest_dir ''/srv/charm'') perms_0o755) ex_world, Inl e)
    | None \<Rightarrow>
        fs (fst ?i) (dest_dir ''/srv/charm'') = Some (Dir perms_0o755) \<and>
        (fst ?i, snd ?i) =
          (case download ex_env
                  (log (Download ?u (dld_file ex_env ''/srv/charm'' ?u))
                     (log (Mkdir (dest_dir ''/srv/charm'') perms_0o755)
                        (ex_world\<lparr>fs := (fs ex_world)(dest_dir ''/srv/charm'' \<mapsto> Dir perms_0o755)\<rparr>)))
                  ?u (dld_file ex_env ''/srv/charm'' ?u) of
             (w2, Inl e) \<Rightarrow> (w2, Inl (reraise e))
           | (w2, Inr u) \<Rightarrow>
               verify_and_extract ex_env w2 ?u (dld_file ex_env ''/srv/charm'' ?u) None None ''sha1'')"
    by blast
  then have "fs (fst ?i) (dest_dir ''/srv/charm'') = Some (Dir perms_0o755)"
    by (simp only: nfd option.case)
  then have dir: "fs (fst ?i) ''/srv/charm/fetched'' = Some (Dir 493)"
    by (simp only: dd perms_0o755_def) simp
  from th obtain rest where
    n: "new_calls ex_world (fst ?i) = Mkdir ''/srv/charm/fetched'' 493 # rest"
    and nm: "\<forall>c\<in>set rest. \<not> is_Mkdir c"
    and hd: "case rest of [] \<Rightarrow> \<exists>e. snd ?i = Inl e
             | c # t \<Rightarrow> c = Download ?u ''/srv/charm/fetched/file.tgz''"
    unfolding pj bn using ne by auto
  from hd ok obtain t where "rest = Download ?u ''/srv/charm/fetched/file.tgz'' # t"
    by (cases rest) auto
  with n nm root ne nf dir fl show ?thesis by auto
qed




text \<open>
  Claim C2, as stated: whenever the fragment of the source holds a supported
  hash-algorithm key with more than one value, \<open>install\<close> fails with the malformed-input
  error before any digest is computed. This fails when a supported key with one value
  stands before it in the fragment: its digest is checked first, and when that check
  fails its error is the one raised.
\<close>

theorem install_multi_value_digest_first:
  "(''sha1'', [''a'', ''b'']) \<in> set (parse_qs ex_env (fragment (parse_url ex_env
       ''http://example.com/file.tgz#md5=x&sha1=a&sha1=b''))) \<and>
   ''sha1'' \<in> set (algorithms_available ex_env) \<and>
   snd (install ex_env ex_world ''http://example.com/file.tgz#md5=x&sha1=a&sha1=b'' None None ''sha1'')
     = Inl (ChecksumError ''x != d41d8cd98f00b204e9800998ecf8427e'') \<and>
   new_calls ex_world
     (fst (install ex_env ex_world ''http://example.com/file.tgz#md5=x&sha1=a&sha1=b'' None None ''sha1''))
     = [Mkdir ''/srv/charm/fetched'' 493,
        Download ''http://example.com/file.tgz#md5=x&sha1=a&sha1=b'' ''/srv/charm/fetched/file.tgz'',
        Urlopen ''http://example.com/file.tgz#md5=x&sha1=a&sha1=b'',
        CheckHash ''/srv/charm/fetched/file.tgz'' ''x'' ''md5'']"
  by (simp add: ex_defs)

text \<open>
  Claim C2, amended: when the download step succeeds and every supported key that stands
  before the key with several values in the parsed fragment has exactly one value, which
  passes its check, \<open>install\<close> fails with \<^verbatim>\<open>TypeError("Expected 1 hash value, not n")\<close>
  without calling the extraction, and the only digests computed are those of the supported
  keys before it: none when it is the first supported key.
\<close>

theorem install_multi_value_type_error:
  assumes fe: "fetch env w source = (w1, Inr dl)"
    and opts: "parse_qs env (fragment (parse_url env source)) = pre @ (key, vs) # post"
    and key: "key \<in> set (algorithms_available env)"
    and vs: "1 < length vs"
    and pre: "\<forall>(k, v)\<in>set pre. k \<in> set (algorithms_available env) \<longrightarrow>
                (\<exists>x. v = [x] \<and> check_hash env (fs w1) dl x k = None)"
  shows "install env w source dest checksum hash_type =
           (add_calls (map (\<lambda>(k, v). CheckHash dl (hd v) k)
                        (filter (\<lambda>(k, v). k \<in> set (algorithms_available env)) pre)) w1,
            Inl (TypeError (''Expected 1 hash value, not '' @ string_of_nat (length vs))))"
proof -
  have "check_options env (fs w1) dl (pre @ (key, vs) # post) =
          (map (\<lambda>(k, v). CheckHash dl (hd v) k)
             (filter (\<lambda>(k, v). k \<in> set (algorithms_available env)) pre),
           Inl (TypeError (''Expected 1 hash value, not '' @ string_of_nat (length vs))))"
    by (simp only: check_options_prefix [OF pre] check_options_multi [OF key vs] fst_conv snd_conv
        append_Nil2)
  then show ?thesis
    by (simp add: install_def fe verify_and_extract_def opts)
qed

text \<open>
  An instance: the key with two values alone, and after a key with a correct digest.
\<close>

theorem install_multi_value_type_error_witness:
  "snd (install ex_env ex_world ''http://example.com/file.tgz#sha1=a&sha1=b'' None None ''sha1'')
     = Inl (TypeError ''Expected 1 hash value, not 2'') \<and>
   new_calls ex_world
     (fst (install ex_env ex_world ''http://example.com/file.tgz#sha1=a&sha1=b'' None None ''sha1''))
     = [Mkdir ''/srv/charm/fetched'' 493,
        Download ''http://example.com/file.tgz#sha1=a&sha1=b'' ''/srv/charm/fetched/file.tgz'',
        Urlopen ''http://example.com/file.tgz#sha1=a&sha1=b''] \<and>
   snd (install ex_env ex_world
          ''http://example.com/file.tgz#md5=d41d8cd98f00b204e9800998ecf8427e&sha1=a&sha1=b''
          None None ''sha1'')
     = Inl (TypeError ''Expected 1 hash value, not 2'') \<and>
   new_calls ex_world
     (fst (install ex_env ex_world
          ''http://example.com/file.tgz#md5=d41d8cd98f00b204e9800998ecf8427e&sha1=a&sha1=b''
          None None ''sha1''))
     = [Mkdir ''/srv/charm/fetched'' 493,
        Download ''http://example.com/file.tgz#md5=d41d8cd98f00b204e9800998ecf8427e&sha1=a&sha1=b''
          ''/srv/charm/fetched/file.tgz'',
        Urlopen ''http://example.com/file.tgz#md5=d41d8cd98f00b204e9800998ecf8427e&sha1=a&sha1=b'',
        CheckHash ''/srv/charm/fetched/file.tgz'' ''d41d8cd98f00b204e9800998ecf8427e'' ''md5'']"
proof -
  let ?u = "''http://example.com/file.tgz#sha1=a&sha1=b''"
  let ?v = "''http://example.com/file.tgz#md5=d41d8cd98f00b204e9800998ecf8427e&sha1=a&sha1=b''"
  let ?dl = "''/srv/charm/fetched/file.tgz''"
  have algs: "''sha1'' \<in> set (algorithms_available ex_env)" by (simp add: ex_env_def)
  have two: "1 < length [''a'', ''b'']" by simp
  \<comment> \<open>the multi-valued key is the only key\<close>
  have fu: "fetch ex_env ex_world ?u = (fst (fetch ex_env ex_world ?u), Inr ?dl)"
    by (rule collapse_snd) (simp add: ex_defs)
  have ou: "parse_qs ex_env (fragment (parse_url ex_env ?u)) = [] @ (''sha1'', [''a'', ''b'']) # []"
    by (simp add: ex_env_def ex_urlparse_def no_parts_def ex_parse_qs_def)
  have pu: "\<forall>(k, v)\<in>set []. k \<in> set (algorithms_available ex_env) \<longrightarrow>
              (\<exists>x. v = [x] \<and> check_hash ex_env (fs (fst (fetch ex_env ex_world ?u))) ?dl x k = None)"
    by simp
  note iu = install_multi_value_type_error [OF fu ou algs two pu, of None None "''sha1''"]
  \<comment> \<open>a key with a correct digest comes first\<close>
  have fv: "fetch ex_env ex_world ?v = (fst (fetch ex_env ex_world ?v), Inr ?dl)"
    by (rule collapse_snd) (simp add: ex_defs)
  have ov: "parse_qs ex_env (fragment (parse_url ex_env ?v)) =
              [(''md5'', [''d41d8cd98f00b204e9800998ecf8427e''])] @ (''sha1'', [''a'', ''b'']) # []"
    by (simp add: ex_env_def ex_urlparse_def no_parts_def ex_parse_qs_def)
  have pv: "\<forall>(k, v)\<in>set [(''md5'', [''d41d8cd98f00b204e9800998ecf8427e''])].
              k \<in> set (algorithms_available ex_env) \<longrightarrow>
              (\<exists>x. v = [x] \<and> check_hash ex_env (fs (fst (fetch ex_env ex_world ?v))) ?dl x k = None)"
    by (simp add: ex_defs)
  note iv = install_multi_value_type_error [OF fv ov algs two pv, of None None "''sha1''"]
  have cu: "calls (fst (fetch ex_env ex_world ?u)) =
        [Mkdir ''/srv/charm/fetched'' 493, Download ?u ?dl, Urlopen ?u]"
    by (simp add: ex_defs)
  have cv: "calls (fst (fetch ex_env ex_world ?v)) =
        [Mkdir ''/srv/charm/fetched'' 493, Download ?v ?dl, Urlopen ?v]"
    by (simp add: ex_defs)
  have w0: "calls ex_world = []" by (simp add: ex_world_def)
  have al: "algorithms_available ex_env = [''md5'', ''sha1'', ''sha256'', ''sha512'']"
    by (simp add: ex_env_def)
  have s2: "string_of_nat (Suc (Suc 0)) = ''2''"
    using string_of_nat_2 by (simp add: numeral_2_eq_2)
  show ?thesis
    by (simp add: iu iv cu cv w0 new_calls_def s2 al)
qed

text \<open>
  Claim C5: when the fragment holds a digest assertion (a supported key with one
  value) and an explicit, non-empty checksum is given, both are checked against the
  downloaded file: if either check fails on that file, \<open>install\<close> fails and the
  extraction is not called; and when \<open>install\<close> returns, both checks were made and both
  passed.
\<close>

theorem install_enforces_fragment_and_explicit:
  assumes i: "install env w source dest (Some c) hash_type = (w', r)"
    and c: "c \<noteq> []"
    and kx: "(k, [x]) \<in> set (parse_qs env (fragment (parse_url env source)))"
    and k: "k \<in> set (algorithms_available env)"
    and root: "environ_CHARM_DIR env = Some root"
  shows "(check_hash env (fs w') (dld_file env root source) x k \<noteq> None \<or>
          check_hash env (fs w') (dld_file env root source) c hash_type \<noteq> None \<longrightarrow>
            (\<exists>e. r = Inl e) \<and> (\<forall>cl\<in>set (new_calls w w'). \<not> is_Extract cl)) \<and>
         ((\<exists>p. r = Inr p) \<longrightarrow>
            CheckHash (dld_file env root source) x k \<in> set (new_calls w w') \<and>
            CheckHash (dld_file env root source) c hash_type \<in> set (new_calls w w') \<and>
            check_hash env (fs w') (dld_file env root source) x k = None \<and>
            check_hash env (fs w') (dld_file env root source) c hash_type = None)"
proof -
  let ?dl = "dld_file env root source"
  have both: "CheckHash ?dl x k \<in> set (new_calls w w') \<and>
              CheckHash ?dl c hash_type \<in> set (new_calls w w') \<and>
              check_hash env (fs w') ?dl x k = None \<and>
              check_hash env (fs w') ?dl c hash_type = None"
    if m: "Extract f d \<in> set (new_calls w w')" for f d
  proof -
    have f: "f = ?dl" by (rule install_extract_checked(3) [OF i m root])
    from install_extract_checked(1) [OF i m kx k] install_extract_checked(2) [OF i m refl c]
    show ?thesis unfolding f by simp
  qed
  have succ: "\<exists>f. Extract f dest \<in> set (new_calls w w')" if "r = Inr p" for p
    using install_success_extract [of env w source dest "Some c" hash_type w' p] i that by simp
  have part2: "(\<exists>p. r = Inr p) \<longrightarrow>
            CheckHash ?dl x k \<in> set (new_calls w w') \<and>
            CheckHash ?dl c hash_type \<in> set (new_calls w w') \<and>
            check_hash env (fs w') ?dl x k = None \<and>
            check_hash env (fs w') ?dl c hash_type = None"
    using succ both by blast
  have noext: "\<forall>cl\<in>set (new_calls w w'). \<not> is_Extract cl"
    if "check_hash env (fs w') ?dl x k \<noteq> None \<or> check_hash env (fs w') ?dl c hash_type \<noteq> None"
  proof
    fix cl assume cl: "cl \<in> set (new_calls w w')"
    show "\<not> is_Extract cl"
    proof
      assume "is_Extract cl"
      then obtain f d where "cl = Extract f d" by (cases cl) auto
      with cl have "Extract f d \<in> set (new_calls w w')" by simp
      from both [OF this] that show False by auto
    qed
  qed
  have fails: "\<exists>e. r = Inl e"
    if "check_hash env (fs w') ?dl x k \<noteq> None \<or> check_hash env (fs w') ?dl c hash_type \<noteq> None"
  proof (cases r)
    case (Inr p)
    from succ [OF Inr] obtain f where "Extract f dest \<in> set (new_calls w w')" by blast
    from both [OF this] that show ?thesis by auto
  qed simp
  from part2 noext fails show ?thesis by blast
qed

text \<open>
  An instance: a correct SHA-1 digest in the fragment and a wrong explicit MD5 checksum.
\<close>

theorem install_enforces_fragment_and_explicit_witness:
  "check_hash ex_env
     (fs (fst (install ex_env ex_world
        ''http://example.com/file.tgz#sha1=da39a3ee5e6b4b0d3255bfef95601890afd80709''
        None (Some ''bad'') ''md5'')))
     ''/srv/charm/fetched/file.tgz'' ''da39a3ee5e6b4b0d3255bfef95601890afd80709'' ''sha1'' = None \<and>
   check_hash ex_env
     (fs (fst (install ex_env ex_world
        ''http://example.com/file.tgz#sha1=da39a3ee5e6b4b0d3255bfef95601890afd80709''
        None (Some ''bad'') ''md5'')))
     ''/srv/charm/fetched/file.tgz'' ''bad'' ''md5'' \<noteq> None \<and>
   (\<exists>e. snd (install ex_env ex_world
        ''http://example.com/file.tgz#sha1=da39a3ee5e6b4b0d3255bfef95601890afd80709''
        None (Some ''bad'') ''md5'') = Inl e) \<and>
   \<not> (\<exists>cl\<in>set (new_calls ex_world (fst (install ex_env ex_world
        ''http://example.com/file.tgz#sha1=da39a3ee5e6b4b0d3255bfef95601890afd80709''
        None (Some ''bad'') ''md5''))). is_Extract cl)"
proof -
  let ?u = "''http://example.com/file.tgz#sha1=da39a3ee5e6b4b0d3255bfef95601890afd80709''"
  let ?i = "install ex_env ex_world ?u None (Some ''bad'') ''md5''"
  have c: "''bad'' \<noteq> []" by simp
  have kx: "(''sha1'', [''da39a3ee5e6b4b0d3255bfef95601890afd80709''])
              \<in> set (parse_qs ex_env (fragment (parse_url ex_env ?u)))"
    by (simp add: ex_env_def ex_urlparse_def no_parts_def ex_parse_qs_def)
  have k: "''sha1'' \<in> set (algorithms_available ex_env)" by (simp add: ex_env_def)
  have root: "environ_CHARM_DIR ex_env = Some ''/srv/charm''" by (simp add: ex_env_def)
  have dl: "dld_file ex_env ''/srv/charm'' ?u = ''/srv/charm/fetched/file.tgz''"
    by (simp add: dld_file_def dest_dir_def path_join_def basename_def ex_env_def ex_urlparse_def
        no_parts_def)
  have good: "check_hash ex_env (fs (fst ?i)) ''/srv/charm/fetched/file.tgz''
                ''da39a3ee5e6b4b0d3255bfef95601890afd80709'' ''sha1'' = None"
    by (simp add: ex_defs)
  have bad: "check_hash ex_env (fs (fst ?i)) ''/srv/charm/fetched/file.tgz'' ''bad'' ''md5'' \<noteq> None"
    by (simp add: ex_defs)
  from install_enforces_fragment_and_explicit [OF pair_fst_snd c kx k root] bad good
  show ?thesis unfolding dl by blast
qed

text \<open>
  Claim C6: every applicable digest check passes before the extraction is attempted. A
  check that is made and fails ends \<open>install\<close> with the exception of that check, and the
  extraction is not called; and when the extraction is called, every supported key of the
  fragment had exactly one value, checked and passed, and so had the explicit checksum when
  one was given and not empty.
\<close>

theorem install_checks_guard_extraction:
  assumes i: "install env w source dest checksum hash_type = (w', r)"
  shows "(\<forall>f x a e. CheckHash f x a \<in> set (new_calls w w') \<longrightarrow>
            check_hash env (fs w') f x a = Some e \<longrightarrow>
            r = Inl e \<and> (\<forall>cl\<in>set (new_calls w w'). \<not> is_Extract cl)) \<and>
         (\<forall>f d. Extract f d \<in> set (new_calls w w') \<longrightarrow>
            (\<forall>(k, vs)\<in>set (parse_qs env (fragment (parse_url env source))).
                k \<in> set (algorithms_available env) \<longrightarrow>
                (\<exists>x. vs = [x] \<and> CheckHash f x k \<in> set (new_calls w w') \<and>
                     check_hash env (fs w') f x k = None)) \<and>
            (\<forall>c. checksum = Some c \<longrightarrow> c \<noteq> [] \<longrightarrow>
                CheckHash f c hash_type \<in> set (new_calls w w') \<and>
                check_hash env (fs w') f c hash_type = None))"
proof (intro conjI allI impI)
  fix f x a e
  assume "CheckHash f x a \<in> set (new_calls w w')" and "check_hash env (fs w') f x a = Some e"
  from install_failed_check [OF i this]
  show "r = Inl e" and "\<forall>cl\<in>set (new_calls w w'). \<not> is_Extract cl" by simp_all
next
  fix f d
  assume m: "Extract f d \<in> set (new_calls w w')"
  show "\<forall>(k, vs)\<in>set (parse_qs env (fragment (parse_url env source))).
          k \<in> set (algorithms_available env) \<longrightarrow>
          (\<exists>x. vs = [x] \<and> CheckHash f x k \<in> set (new_calls w w') \<and>
               check_hash env (fs w') f x k = None)"
    using install_extract_checked(1) [OF i m] by blast
next
  fix f d c
  assume m: "Extract f d \<in> set (new_calls w w')" and c: "checksum = Some c" "c \<noteq> []"
  from install_extract_checked(2) [OF i m c]
  show "CheckHash f c hash_type \<in> set (new_calls w w')"
    and "check_hash env (fs w') f c hash_type = None" by simp_all
qed

text \<open>
  An instance: a wrong digest in the fragment, and a run that reaches the extraction.
\<close>

theorem install_checks_guard_extraction_witness:
  "CheckHash ''/srv/charm/fetched/file.tgz'' ''x'' ''md5''
     \<in> set (new_calls ex_world (fst (install ex_env ex_world
          ''http://example.com/file.tgz#md5=x&sha1=a&sha1=b'' None None ''sha1''))) \<and>
   snd (install ex_env ex_world ''http://example.com/file.tgz#md5=x&sha1=a&sha1=b'' None None ''sha1'')
     = Inl (ChecksumError ''x != d41d8cd98f00b204e9800998ecf8427e'') \<and>
   \<not> (\<exists>cl\<in>set (new_calls ex_world (fst (install ex_env ex_world
          ''http://example.com/file.tgz#md5=x&sha1=a&sha1=b'' None None ''sha1''))). is_Extract cl) \<and>
   Extract ''/srv/charm/fetched/file.tgz'' None
     \<in> set (new_calls ex_world (fst (install ex_env ex_world
          ''http://example.com/file.tgz#sha1=da39a3ee5e6b4b0d3255bfef95601890afd80709''
          None (Some ''d41d8cd98f00b204e9800998ecf8427e'') ''md5''))) \<and>
   check_hash ex_env (fs (fst (install ex_env ex_world
          ''http://example.com/file.tgz#sha1=da39a3ee5e6b4b0d3255bfef95601890afd80709''
          None (Some ''d41d8cd98f00b204e9800998ecf8427e'') ''md5'')))
     ''/srv/charm/fetched/file.tgz'' ''da39a3ee5e6b4b0d3255bfef95601890afd80709'' ''sha1'' = None \<and>
   check_hash ex_env (fs (fst (install ex_env ex_world
          ''http://example.com/file.tgz#sha1=da39a3ee5e6b4b0d3255bfef95601890afd80709''
          None (Some ''d41d8cd98f00b204e9800998ecf8427e'') ''md5'')))
     ''/srv/charm/fetched/file.tgz'' ''d41d8cd98f00b204e9800998ecf8427e'' ''md5'' = None"
proof -
  let ?dl = "''/srv/charm/fetched/file.tgz''"
  let ?i = "install ex_env ex_world ''http://example.com/file.tgz#md5=x&sha1=a&sha1=b'' None None ''sha1''"
  let ?u = "''http://example.com/file.tgz#sha1=da39a3ee5e6b4b0d3255bfef95601890afd80709''"
  let ?j = "install ex_env ex_world ?u None (Some ''d41d8cd98f00b204e9800998ecf8427e'') ''md5''"
  \<comment> \<open>a check that fails\<close>
  have m: "CheckHash ?dl ''x'' ''md5'' \<in> set (new_calls ex_world (fst ?i))"
    by (simp add: ex_defs)
  have h: "check_hash ex_env (fs (fst ?i)) ?dl ''x'' ''md5''
             = Some (ChecksumError ''x != d41d8cd98f00b204e9800998ecf8427e'')"
    by (simp add: ex_defs)
  note a = install_checks_guard_extraction [where env = ex_env and w = ex_world
      and source = "''http://example.com/file.tgz#md5=x&sha1=a&sha1=b''" and dest = None
      and checksum = None and hash_type = "''sha1''",
      OF pair_fst_snd, THEN conjunct1, rule_format, OF m h]
  \<comment> \<open>a run that reaches extraction\<close>
  have x: "Extract ?dl None \<in> set (new_calls ex_world (fst ?j))"
    by (simp add: ex_defs)
  have kv: "(''sha1'', [''da39a3ee5e6b4b0d3255bfef95601890afd80709''])
              \<in> set (parse_qs ex_env (fragment (parse_url ex_env ?u)))"
    by (simp add: ex_env_def ex_urlparse_def no_parts_def ex_parse_qs_def)
  have k: "''sha1'' \<in> set (algorithms_available ex_env)" by (simp add: ex_env_def)
  note b = install_checks_guard_extraction [where env = ex_env and w = ex_world
      and source = ?u and dest = None and checksum = "Some ''d41d8cd98f00b204e9800998ecf8427e''"
      and hash_type = "''md5''", OF pair_fst_snd, THEN conjunct2, rule_format, OF x]
  from b have b1: "check_hash ex_env (fs (fst ?j)) ?dl ''da39a3ee5e6b4b0d3255bfef95601890afd80709'' ''sha1'' = None"
    using kv k by blast
  from b have b2: "check_hash ex_env (fs (fst ?j)) ?dl ''d41d8cd98f00b204e9800998ecf8427e'' ''md5'' = None"
    by simp
  from a m x b1 b2 show ?thesis by blast
qed

lemma check_explicit_empty:
  "check_explicit env f dl (Some []) hash_type = check_explicit env f dl None hash_type"
  by (simp add: check_explicit_def)

text \<open>
  Claim C10: with the empty string as checksum, \<open>install\<close> makes no explicit check: it
  does what it does without a checksum, and when the download succeeded and the checks of
  the fragment passed it calls the extraction right after them.
\<close>

theorem install_empty_checksum_skips_check:
  "install env w source dest (Some []) hash_type = install env w source dest None hash_type \<and>
   check_explicit env f dl (Some []) hash_type = ([], Inr ()) \<and>
   (\<forall>w1 cs. fetch env w source = (w1, Inr dl) \<longrightarrow>
      check_options env (fs w1) dl (parse_qs env (fragment (parse_url env source))) = (cs, Inr ()) \<longrightarrow>
      install env w source dest (Some []) hash_type =
        (add_calls (cs @ [Extract dl dest]) w1, extract_archive env (fs w1) dl dest))"
proof -
  have "verify_and_extract env w1 source d1 dest (Some []) hash_type =
        verify_and_extract env w1 source d1 dest None hash_type" for w1 d1
    by (simp only: verify_and_extract_def check_explicit_empty)
  then have "install env w source dest (Some []) hash_type = install env w source dest None hash_type"
    by (simp only: install_def)
  moreover have "check_explicit env f dl (Some []) hash_type = ([], Inr ())"
    by (simp add: check_explicit_def)
  moreover have "install env w source dest (Some []) hash_type =
        (add_calls (cs @ [Extract dl dest]) w1, extract_archive env (fs w1) dl dest)"
    if "fetch env w source = (w1, Inr dl)"
      and "check_options env (fs w1) dl (parse_qs env (fragment (parse_url env source))) = (cs, Inr ())"
    for w1 cs
    using that by (simp add: install_def verify_and_extract_def check_explicit_def)
  ultimately show ?thesis by blast
qed

text \<open>
  An instance: an empty checksum beside a correct digest in the fragment.
\<close>

theorem install_empty_checksum_skips_check_witness:
  "snd (install ex_env ex_world
          ''http://example.com/file.tgz#sha1=da39a3ee5e6b4b0d3255bfef95601890afd80709''
          None (Some []) ''md5'') = Inr ''/srv/charm/archives/file'' \<and>
   new_calls ex_world (fst (install ex_env ex_world
          ''http://example.com/file.tgz#sha1=da39a3ee5e6b4b0d3255bfef95601890afd80709''
          None (Some []) ''md5''))
     = [Mkdir ''/srv/charm/fetched'' 493,
        Download ''http://example.com/file.tgz#sha1=da39a3ee5e6b4b0d3255bfef95601890afd80709''
          ''/srv/charm/fetched/file.tgz'',
        Urlopen ''http://example.com/file.tgz#sha1=da39a3ee5e6b4b0d3255bfef95601890afd80709'',
        CheckHash ''/srv/charm/fetched/file.tgz'' ''da39a3ee5e6b4b0d3255bfef95601890afd80709'' ''sha1'',
        Extract ''/srv/charm/fetched/file.tgz'' None]"
proof -
  let ?u = "''http://example.com/file.tgz#sha1=da39a3ee5e6b4b0d3255bfef95601890afd80709''"
  let ?dl = "''/srv/charm/fetched/file.tgz''"
  let ?w1 = "fst (fetch ex_env ex_world ?u)"
  have fe: "fetch ex_env ex_world ?u = (?w1, Inr ?dl)"
    by (rule collapse_snd) (simp add: ex_defs)
  have co: "check_options ex_env (fs ?w1) ?dl (parse_qs ex_env (fragment (parse_url ex_env ?u)))
              = ([CheckHash ?dl ''da39a3ee5e6b4b0d3255bfef95601890afd80709'' ''sha1''], Inr ())"
    by (simp add: ex_defs)
  have cw: "calls ?w1 = [Mkdir ''/srv/charm/fetched'' 493, Download ?u ?dl, Urlopen ?u]"
    by (simp add: ex_defs)
  have ex: "extract_archive ex_env (fs ?w1) ?dl None = Inr ''/srv/charm/archives/file''"
    by (simp add: ex_env_def)
  have w0: "calls ex_world = []" by (simp add: ex_world_def)
  from install_empty_checksum_skips_check [where env = ex_env and w = ex_world and source = ?u
      and dest = None and hash_type = "''md5''" and dl = ?dl,
      THEN conjunct2, THEN conjunct2, rule_format, OF fe co]
  show ?thesis by (simp add: cw ex w0 new_calls_def)
qed

end
